theory Spec2Isabelle
  imports Complex_Main
begin

section \<open>Python values, arrays and errors\<close>

text \<open>
  The calibrator of \<^verbatim>\<open>src/core/calibration.py\<close> works on numpy arrays of
  floating-point samples. The samples of a recording are modelled as real numbers (exact
  arithmetic); the entries of a correction table, which the analysis obtains by a
  floating-point division that may divide by zero, are modelled as \<open>pyfloat\<close>: a real
  number or one of the three special values of a Python float.
\<close>

datatype pyfloat = Fin real | PInf | NInf | NaN

text \<open>
  A sample of a corrected recording. Where a factor of the table that is not finite has
  entered the computation, numpy raises nothing and returns samples that are infinite or
  NaN; which of the three such a sample is depends on the order of the operations inside
  the FFT and is not followed: \<open>NonFinite\<close> stands for any of them.
\<close>

datatype sample = Val real | NonFinite

text \<open>
  Exceptions of the source, one constructor for each kind of \<^verbatim>\<open>raise\<close>.
  \<^item> \<open>InvalidInput\<close>: the \<^verbatim>\<open>ValueError\<close> that numpy and scipy raise on an empty array
    (\<^verbatim>\<open>np.convolve\<close>, \<^verbatim>\<open>np.argmax\<close>), on an FFT length below 1 and on a ragged
    nested list (\<^verbatim>\<open>np.array\<close>), and that \<^verbatim>\<open>int\<close> raises on NaN;
  \<^item> \<open>IndexError\<close>, \<open>KeyError\<close>, \<open>TypeError\<close>, \<open>OverflowError\<close>, \<open>ZeroDivisionError\<close>:
    Python's own;
  \<^item> \<open>NotLoaded\<close>: \<^verbatim>\<open>ValueError("Calibration data is not loaded.")\<close>;
  \<^item> \<open>BadMicDict\<close>: \<^verbatim>\<open>ValueError("Invalid microphone dictionary format. ...")\<close>;
  \<^item> \<open>ListInput\<close>: \<^verbatim>\<open>Warning("Audio input is in list form. ...")\<close>;
  \<^item> \<open>ShapeMismatch\<close>: \<^verbatim>\<open>ValueError("Mismatch between the number of channels ...")\<close>;
  \<^item> \<open>BadRecordings\<close>: \<^verbatim>\<open>ValueError("mic_recordings should be a list or 2D numpy array.")\<close>;
  \<^item> \<open>MissingField c\<close>: \<^verbatim>\<open>ValueError(f"Missing microphone number for {c}.")\<close>;
  \<^item> \<open>OutOfRange k\<close>: \<^verbatim>\<open>ValueError(f"Invalid or out-of-range microphone number: {k}.")\<close>;
  \<^item> \<open>NotFound p\<close>: \<^verbatim>\<open>FileNotFoundError(f"Calibration file not found: {p}")\<close>;
  \<^item> \<open>ParseError\<close>: \<^verbatim>\<open>json.JSONDecodeError\<close>.
\<close>

datatype error =
    InvalidInput
  | IndexError
  | KeyError string
  | TypeError
  | OverflowError
  | ZeroDivisionError
  | NotLoaded
  | BadMicDict
  | ListInput
  | ShapeMismatch
  | BadRecordings
  | MissingField string
  | OutOfRange int
  | NotFound string
  | ParseError

text \<open>
  A numpy array of one or two dimensions with entries of type \<open>'a\<close>. \<open>Arr2 c rows\<close> has shape
  \<open>(length rows, c)\<close>: it is indexed \<open>[row][column]\<close>, and every row has \<open>c\<close>
  entries.
\<close>

datatype 'a ndarray = Arr1 "'a list" | Arr2 nat "'a list list"

text \<open>\<^verbatim>\<open>len(a)\<close>: the size of the first axis.\<close>

fun alen :: "real ndarray \<Rightarrow> nat" where
  "alen (Arr1 xs) = length xs"
| "alen (Arr2 c rows) = length rows"

text \<open>\<^verbatim>\<open>a[:, j]\<close> on a two-dimensional array.\<close>

definition column :: "nat \<Rightarrow> nat \<Rightarrow> real list list \<Rightarrow> error + real list" where
  "column c j rows = (if j < c then Inr (map (\<lambda>r. r ! j) rows) else Inl IndexError)"

text \<open>
  \<^verbatim>\<open>if a.ndim > 1: a = a[:, 0]\<close>, the reduction of a stereo signal to its first channel.
\<close>

fun first_channel :: "real ndarray \<Rightarrow> error + real list" where
  "first_channel (Arr1 xs) = Inr xs"
| "first_channel (Arr2 c rows) = column c 0 rows"

section \<open>Library functions used by the calibrator\<close>

text \<open>Reading a sequence with zero outside its range.\<close>

definition getz :: "real list \<Rightarrow> int \<Rightarrow> real" where
  "getz v i = (if 0 \<le> i \<and> i < int (length v) then v ! nat i else 0)"

text \<open>
  \<^verbatim>\<open>scipy.signal.correlate(a, v, mode='full')\<close> on one-dimensional real arrays: the
  convolution of \<open>a\<close> with \<open>v\<close> reversed, of length \<open>len(a) + len(v) - 1\<close>, whose entry
  \<open>k\<close> is \<open>\<Sum>m. a[m] * v[m - k + len(v) - 1]\<close>. An empty operand makes
  \<^verbatim>\<open>np.convolve\<close> raise \<^verbatim>\<open>ValueError\<close>.
\<close>

definition correlate_full :: "real list \<Rightarrow> real list \<Rightarrow> error + real list" where
  "correlate_full a v =
     (if a = [] \<or> v = [] then Inl InvalidInput
      else Inr (map (\<lambda>k. \<Sum>m\<leftarrow>[0..<length a].
                           a ! m * getz v (int m - int k + int (length v) - 1))
                    [0..<length a + length v - 1]))"

text \<open>
  \<^verbatim>\<open>np.argmax\<close>: the first index of the largest entry; \<^verbatim>\<open>ValueError\<close> on an empty
  array.
\<close>

fun argmax_from :: "real list \<Rightarrow> nat \<Rightarrow> nat \<Rightarrow> real \<Rightarrow> nat" where
  "argmax_from [] i best v = best"
| "argmax_from (x # xs) i best v =
     (if v < x then argmax_from xs (Suc i) i x else argmax_from xs (Suc i) best v)"

fun argmax :: "real list \<Rightarrow> error + nat" where
  "argmax [] = Inl InvalidInput"
| "argmax (x # xs) = Inr (argmax_from xs 1 0 x)"

section \<open>Alignment\<close>

text \<open>
  The body of the loop of \<^verbatim>\<open>align_signals\<close> for one microphone signal, \<open>ref\<close> being
  the reference after its reduction to one dimension:
  \<^verbatim>\<open>
    correlation = signal.correlate(mic_signal, ref_signal, mode='full')
    offset = np.argmax(correlation) - len(ref_signal)
    if offset > 0: aligned_signal = mic_signal[offset:]
    else:          aligned_signal = np.pad(mic_signal, (abs(offset), 0), mode='constant')
    aligned_signal = aligned_signal[:len(ref_signal)]
    aligned_signal = np.pad(aligned_signal, (0, len(ref_signal) - len(aligned_signal)), ...)
  \<close>
\<close>

definition align_offset :: "real list \<Rightarrow> real list \<Rightarrow> error + int" where
  "align_offset ref mic =
     (case correlate_full mic ref of
        Inl e \<Rightarrow> Inl e
      | Inr correlation \<Rightarrow>
          (case argmax correlation of
             Inl e \<Rightarrow> Inl e
           | Inr am \<Rightarrow> Inr (int am - int (length ref))))"

definition shift_and_trim :: "real list \<Rightarrow> real list \<Rightarrow> int \<Rightarrow> real list" where
  "shift_and_trim ref mic offset =
     (let aligned = (if offset > 0 then drop (nat offset) mic
                     else replicate (nat \<bar>offset\<bar>) 0 @ mic);
          aligned = take (length ref) aligned
      in aligned @ replicate (length ref - length aligned) 0)"

definition align_one :: "real list \<Rightarrow> real ndarray \<Rightarrow> error + real list" where
  "align_one ref mic_signal =
     (case first_channel mic_signal of
        Inl e \<Rightarrow> Inl e
      | Inr mic \<Rightarrow>
          (case align_offset ref mic of
             Inl e \<Rightarrow> Inl e
           | Inr offset \<Rightarrow> Inr (shift_and_trim ref mic offset)))"

fun align_loop :: "real list \<Rightarrow> real ndarray list \<Rightarrow> error + real list list" where
  "align_loop ref [] = Inr []"
| "align_loop ref (m # ms) =
     (case align_one ref m of
        Inl e \<Rightarrow> Inl e
      | Inr a \<Rightarrow>
          (case align_loop ref ms of
             Inl e \<Rightarrow> Inl e
           | Inr as \<Rightarrow> Inr (a # as)))"

definition align_signals :: "real ndarray \<Rightarrow> real ndarray list \<Rightarrow> error + real list list" where
  "align_signals ref_signal mic_signals =
     (case first_channel ref_signal of
        Inl e \<Rightarrow> Inl e
      | Inr ref \<Rightarrow> align_loop ref mic_signals)"

text \<open>An array from which \<^verbatim>\<open>a[:, 0]\<close> can be taken, and one that also has samples.\<close>

fun has_first_channel :: "real ndarray \<Rightarrow> bool" where
  "has_first_channel (Arr1 xs) = True"
| "has_first_channel (Arr2 c rows) = (0 < c)"

definition has_samples :: "real ndarray \<Rightarrow> bool" where
  "has_samples a = (has_first_channel a \<and> 0 < alen a)"

section \<open>The real-input FFT\<close>

text \<open>Zero-padding or cropping of an array to \<open>n\<close> entries, as numpy's FFT does.\<close>

definition pad_or_trim :: "nat \<Rightarrow> 'a::zero list \<Rightarrow> 'a list" where
  "pad_or_trim n xs = take n xs @ replicate (n - length xs) 0"

text \<open>Bin \<open>k\<close> of the discrete Fourier transform of \<open>xs\<close>, at the length of \<open>xs\<close>.\<close>

definition dft_bin :: "real list \<Rightarrow> nat \<Rightarrow> complex" where
  "dft_bin xs k =
     (\<Sum>m\<leftarrow>[0..<length xs].
        complex_of_real (xs ! m) * cis (- (2 * pi * real k * real m / real (length xs))))"

text \<open>
  \<^verbatim>\<open>np.fft.rfft(a, n)\<close>: the \<open>n div 2 + 1\<close> bins of the non-negative half of the
  spectrum of \<open>a\<close>, zero-padded or cropped to \<open>n\<close> samples; \<^verbatim>\<open>ValueError\<close> when
  \<open>n < 1\<close>. \<^verbatim>\<open>np.fft.rfft(a)\<close> is \<open>rfft a (len a)\<close>.
\<close>

definition rfft :: "real list \<Rightarrow> int \<Rightarrow> error + complex list" where
  "rfft a n =
     (if n < 1 then Inl InvalidInput
      else Inr (map (dft_bin (pad_or_trim (nat n) a)) [0..<nat n div 2 + 1]))"

text \<open>
  \<^verbatim>\<open>np.fft.irfft(X, n)\<close>: the \<open>n\<close> real samples whose spectrum has the half
  \<open>X\<close>, cropped or zero-padded to \<open>n div 2 + 1\<close> bins. The imaginary part of bin 0
  and, for even \<open>n\<close>, of bin \<open>n div 2\<close> is discarded. \<^verbatim>\<open>ValueError\<close> when \<open>n < 1\<close>.
\<close>

definition irfft_sample :: "complex list \<Rightarrow> nat \<Rightarrow> nat \<Rightarrow> real" where
  "irfft_sample Y n j =
     (Re (Y ! 0)
      + (\<Sum>k\<leftarrow>[1..<(n + 1) div 2].
           2 * Re (Y ! k * cis (2 * pi * real k * real j / real n)))
      + (if even n then Re (Y ! (n div 2)) * (- 1) ^ j else 0)) / real n"

definition irfft :: "complex list \<Rightarrow> int \<Rightarrow> error + real list" where
  "irfft X n =
     (if n < 1 then Inl InvalidInput
      else Inr (map (irfft_sample (pad_or_trim (nat n div 2 + 1) X) (nat n)) [0..<nat n]))"

text \<open>
  \<^verbatim>\<open>np.fft.rfftfreq(n, d)\<close>: \<^verbatim>\<open>val = 1.0/(n*d); return arange(0, n//2 + 1) * val\<close>.
\<close>

definition rfftfreq :: "nat \<Rightarrow> real \<Rightarrow> error + pyfloat list" where
  "rfftfreq n d =
     (if real n * d = 0 then Inl ZeroDivisionError
      else Inr (map (\<lambda>k. Fin (real k * (1 / (real n * d)))) [0..<n div 2 + 1]))"

text \<open>
  Division of two floats in numpy: a zero divisor gives an infinity or NaN (with a
  warning), not an exception.
\<close>

definition fdiv :: "real \<Rightarrow> real \<Rightarrow> pyfloat" where
  "fdiv a b =
     (if b \<noteq> 0 then Fin (a / b)
      else if a = 0 then NaN
      else if 0 < a then PInf else NInf)"

text \<open>
  \<^verbatim>\<open>np.resize(a, (m,))\<close>, \<open>a\<close> being the entries of the array in their order
  (\<^verbatim>\<open>np.resize\<close> flattens it first): \<open>m\<close> entries read cyclically from \<open>a\<close>;
  zeros when \<open>a\<close> is empty.
\<close>

definition np_resize :: "pyfloat list \<Rightarrow> nat \<Rightarrow> pyfloat list" where
  "np_resize a m =
     (if a = [] then replicate m (Fin 0)
      else map (\<lambda>i. a ! (i mod length a)) [0..<m])"

text \<open>
  The product \<^verbatim>\<open>mic_fft * calibration_factor\<close> of a complex array with a float array of
  the same shape, entry by entry. numpy multiplies \<open>a + bj\<close> by the factor \<open>f\<close> as
  \<open>(a * f - b * 0) + (a * 0 + b * f)j\<close> in IEEE arithmetic, and raises nothing: when
  \<open>f\<close> is an infinity or NaN, the real and the imaginary part of the product are each
  an infinity or NaN. Such an entry of the product is \<open>None\<close>.
\<close>

fun fin_val :: "pyfloat \<Rightarrow> real option" where
  "fin_val (Fin x) = Some x"
| "fin_val PInf = None"
| "fin_val NInf = None"
| "fin_val NaN = None"

definition scale_bin :: "complex \<Rightarrow> pyfloat \<Rightarrow> complex option" where
  "scale_bin z f = (case fin_val f of None \<Rightarrow> None | Some x \<Rightarrow> Some (z * complex_of_real x))"

definition scale_bins :: "complex list \<Rightarrow> pyfloat list \<Rightarrow> complex option list" where
  "scale_bins zs fs = map2 scale_bin zs fs"

text \<open>
  \<^verbatim>\<open>np.fft.irfft(X, n)\<close> on such a product. Only the first \<open>n div 2 + 1\<close> bins
  are read, the others are cropped. When all bins read are finite the samples are those
  of \<open>irfft\<close>. Otherwise every sample is a sum to which a part of a bin that is not
  finite contributes (the real part, for bin 0 and the bin \<open>n div 2\<close> of an even \<open>n\<close>),
  and no sample is finite. \<^verbatim>\<open>ValueError\<close> when \<open>n < 1\<close>.
\<close>

definition irfft_scaled :: "complex option list \<Rightarrow> int \<Rightarrow> error + sample list" where
  "irfft_scaled X n =
     (if n < 1 then Inl InvalidInput
      else
        (case those (take (nat n div 2 + 1) X) of
           None \<Rightarrow> Inr (replicate (nat n) NonFinite)
         | Some Y \<Rightarrow>
             (case irfft Y n of
                Inl e \<Rightarrow> Inl e
              | Inr y \<Rightarrow> Inr (map Val y))))"

text \<open>Python's list indexing \<^verbatim>\<open>xs[i]\<close>: a negative index counts from the end.\<close>

definition py_index :: "'a list \<Rightarrow> int \<Rightarrow> error + 'a" where
  "py_index xs i =
     (if 0 \<le> i \<and> i < int (length xs) then Inr (xs ! nat i)
      else if i < 0 \<and> - int (length xs) \<le> i then Inr (xs ! nat (int (length xs) + i))
      else Inl IndexError)"

text \<open>\<^verbatim>\<open>int(x)\<close> on a float: truncation toward zero.\<close>

definition py_int :: "real \<Rightarrow> int" where
  "py_int x = (if 0 \<le> x then \<lfloor>x\<rfloor> else \<lceil>x\<rceil>)"

section \<open>The calibrator and its correction table\<close>

text \<open>
  \<^verbatim>\<open>self.calibration_data\<close> is a dictionary whose values are (nested) lists of floats:
  empty after \<^verbatim>\<open>__init__\<close>, the two keys \<^verbatim>\<open>frequency_bins\<close> and
  \<^verbatim>\<open>calibration_factors\<close> after the analysis, whatever the file holds after a load.
\<close>

datatype pyval = PNum pyfloat | PList "pyval list"

type_synonym pydict = "(string \<times> pyval) list"

record calibrator =
  ref_mic_index :: int
  calibration_data :: pydict

text \<open>\<^verbatim>\<open>MicrophoneCalibrator(ref_mic_index)\<close>\<close>

definition init_calibrator :: "int \<Rightarrow> calibrator" where
  "init_calibrator r = \<lparr>ref_mic_index = r, calibration_data = []\<rparr>"

text \<open>The dictionary that the analysis stores.\<close>

definition table_dict :: "pyfloat list \<Rightarrow> pyfloat list list \<Rightarrow> pydict" where
  "table_dict frequency_bins calibration_factors =
     [(''frequency_bins'', PList (map PNum frequency_bins)),
      (''calibration_factors'', PList (map (\<lambda>cf. PList (map PNum cf)) calibration_factors))]"

text \<open>\<^verbatim>\<open>d[k]\<close> on a dictionary, \<^verbatim>\<open>v[i]\<close> and \<^verbatim>\<open>len(v)\<close> on one of its values.\<close>

definition dict_get :: "pydict \<Rightarrow> string \<Rightarrow> error + pyval" where
  "dict_get d k = (case map_of d k of None \<Rightarrow> Inl (KeyError k) | Some v \<Rightarrow> Inr v)"

fun list_get :: "pyval \<Rightarrow> nat \<Rightarrow> error + pyval" where
  "list_get (PList xs) i = (if i < length xs then Inr (xs ! i) else Inl IndexError)"
| "list_get (PNum x) i = Inl TypeError"

fun py_len :: "pyval \<Rightarrow> error + nat" where
  "py_len (PList xs) = Inr (length xs)"
| "py_len (PNum x) = Inl TypeError"

text \<open>
  \<^verbatim>\<open>np.array(v)\<close> for a value \<open>v\<close> of the dictionary: an array with the shape of
  the nesting of \<open>v\<close> (shape \<open>()\<close> for a bare number, \<open>(0,)\<close> for the empty list)
  that holds the numbers of \<open>v\<close> in their order. A ragged nesting, in which two entries
  of one list differ in shape, raises \<^verbatim>\<open>ValueError\<close> (numpy 1.24 and later).
\<close>

fun np_shape :: "pyval \<Rightarrow> nat list option" where
  "np_shape (PNum x) = Some []"
| "np_shape (PList vs) =
     (case map np_shape vs of
        [] \<Rightarrow> Some [0]
      | s # ss \<Rightarrow>
          (case s of
             None \<Rightarrow> None
           | Some d \<Rightarrow> if list_all (\<lambda>t. t = Some d) ss then Some (length vs # d) else None))"

fun np_flat :: "pyval \<Rightarrow> pyfloat list" where
  "np_flat (PNum x) = [x]"
| "np_flat (PList vs) = concat (map np_flat vs)"

datatype pyarray = PyArray (dims: "nat list") (entries: "pyfloat list")

definition np_array :: "pyval \<Rightarrow> error + pyarray" where
  "np_array v =
     (case np_shape v of
        None \<Rightarrow> Inl InvalidInput
      | Some d \<Rightarrow> Inr (PyArray d (np_flat v)))"

text \<open>
  \<^verbatim>\<open>len(a)\<close> on such an array: the size of its first axis; \<^verbatim>\<open>TypeError\<close> on an
  array of shape \<open>()\<close>.
\<close>

fun np_len :: "pyarray \<Rightarrow> error + nat" where
  "np_len (PyArray [] xs) = Inl TypeError"
| "np_len (PyArray (d # ds) xs) = Inr d"

subsection \<open>Analysis\<close>

text \<open>
  The loop of \<^verbatim>\<open>analyze_frequency_response\<close>:
  \<^verbatim>\<open>
    for i, mic_response in enumerate(mic_recordings):
        mic_fft = np.abs(np.fft.rfft(mic_response, n=len(ref_response)))
        cal_factor = ref_fft / mic_fft
        calibration_factors.append(cal_factor)
  \<close>
\<close>

definition cal_factor :: "real list \<Rightarrow> nat \<Rightarrow> real list \<Rightarrow> error + pyfloat list" where
  "cal_factor ref_fft n mic_response =
     (case rfft mic_response (int n) of
        Inl e \<Rightarrow> Inl e
      | Inr spectrum \<Rightarrow> Inr (map2 fdiv ref_fft (map cmod spectrum)))"

fun factor_loop :: "real list \<Rightarrow> nat \<Rightarrow> real list list \<Rightarrow> error + pyfloat list list" where
  "factor_loop ref_fft n [] = Inr []"
| "factor_loop ref_fft n (mic_response # rest) =
     (case cal_factor ref_fft n mic_response of
        Inl e \<Rightarrow> Inl e
      | Inr cf \<Rightarrow>
          (case factor_loop ref_fft n rest of
             Inl e \<Rightarrow> Inl e
           | Inr cfs \<Rightarrow> Inr (cf # cfs)))"

text \<open>
  \<^verbatim>\<open>analyze_frequency_response(self, mic_recordings, sample_rate)\<close>. The sample rate is
  the integer that \<^verbatim>\<open>wavfile.read\<close> returns, so \<^verbatim>\<open>1 / sample_rate\<close> raises
  \<^verbatim>\<open>ZeroDivisionError\<close> at rate 0.
\<close>

definition analyze_frequency_response ::
  "calibrator \<Rightarrow> real list list \<Rightarrow> int \<Rightarrow> error + calibrator" where
  "analyze_frequency_response self mic_recordings sample_rate =
     (case py_index mic_recordings (ref_mic_index self) of
        Inl e \<Rightarrow> Inl e
      | Inr ref_response \<Rightarrow>
          (case rfft ref_response (int (length ref_response)) of
             Inl e \<Rightarrow> Inl e
           | Inr ref_spectrum \<Rightarrow>
               (case factor_loop (map cmod ref_spectrum) (length ref_response) mic_recordings of
                  Inl e \<Rightarrow> Inl e
                | Inr calibration_factors \<Rightarrow>
                    (if sample_rate = 0 then Inl ZeroDivisionError
                     else
                       (case rfftfreq (length ref_response) (1 / real_of_int sample_rate) of
                          Inl e \<Rightarrow> Inl e
                        | Inr frequency_bins \<Rightarrow>
                            Inr (self\<lparr>calibration_data :=
                                   table_dict frequency_bins calibration_factors\<rparr>))))))"

subsection \<open>Saving and loading\<close>

text \<open>
  A file holds a JSON document or something else. \<^verbatim>\<open>json.dump\<close> writes every float
  with \<^verbatim>\<open>repr\<close>, the shortest decimal that \<^verbatim>\<open>float\<close> reads back as the same
  number, and writes the special values as \<^verbatim>\<open>Infinity\<close>, \<^verbatim>\<open>-Infinity\<close> and
  \<^verbatim>\<open>NaN\<close>, which \<^verbatim>\<open>json.load\<close> accepts; so the document written for a dictionary
  is modelled by the dictionary itself. The file system is a map from paths to files in
  which opening a file for writing always succeeds.
\<close>

datatype file_content = JsonDoc pydict | NotJson

type_synonym filesystem = "string \<rightharpoonup> file_content"

definition save_calibration :: "calibrator \<Rightarrow> filesystem \<Rightarrow> string \<Rightarrow> filesystem" where
  "save_calibration self fs filepath = fs(filepath \<mapsto> JsonDoc (calibration_data self))"

definition load_calibration :: "calibrator \<Rightarrow> filesystem \<Rightarrow> string \<Rightarrow> error + calibrator" where
  "load_calibration self fs filepath =
     (case fs filepath of
        Some (JsonDoc d) \<Rightarrow> Inr (self\<lparr>calibration_data := d\<rparr>)
      | Some NotJson \<Rightarrow> Inl ParseError
      | None \<Rightarrow> Inl (NotFound filepath))"

text \<open>
  Python's \<^verbatim>\<open>==\<close> on floats, on lists of them and on dictionaries, for two values
  that share no object, as a table and the one read back from its file are: NaN differs
  from every float, NaN included; two dictionaries are equal when they have the same keys
  with equal values. (On one and the same list object \<^verbatim>\<open>==\<close> is true whatever the
  list holds, since the comparison of lists tests identity first.)
\<close>

fun pyfloat_eq :: "pyfloat \<Rightarrow> pyfloat \<Rightarrow> bool" where
  "pyfloat_eq (Fin a) (Fin b) = (a = b)"
| "pyfloat_eq PInf PInf = True"
| "pyfloat_eq NInf NInf = True"
| "pyfloat_eq x y = False"

fun pyval_eq :: "pyval \<Rightarrow> pyval \<Rightarrow> bool"
  and pyvals_eq :: "pyval list \<Rightarrow> pyval list \<Rightarrow> bool" where
  "pyval_eq (PNum x) (PNum y) = pyfloat_eq x y"
| "pyval_eq (PList xs) (PList ys) = pyvals_eq xs ys"
| "pyval_eq (PNum x) (PList ys) = False"
| "pyval_eq (PList xs) (PNum y) = False"
| "pyvals_eq [] [] = True"
| "pyvals_eq (x # xs) (y # ys) = (pyval_eq x y \<and> pyvals_eq xs ys)"
| "pyvals_eq [] (y # ys) = False"
| "pyvals_eq (x # xs) [] = False"

definition pydict_eq :: "pydict \<Rightarrow> pydict \<Rightarrow> bool" where
  "pydict_eq d e =
     (set (map fst d) = set (map fst e) \<and>
      list_all (\<lambda>k. case (map_of d k, map_of e k) of
                       (Some v, Some w) \<Rightarrow> pyval_eq v w
                     | _ \<Rightarrow> False) (map fst d))"

text \<open>A value, and a dictionary, all of whose numbers are finite.\<close>

fun finite_val :: "pyval \<Rightarrow> bool"
  and finite_vals :: "pyval list \<Rightarrow> bool" where
  "finite_val (PNum x) = (fin_val x \<noteq> None)"
| "finite_val (PList xs) = finite_vals xs"
| "finite_vals [] = True"
| "finite_vals (x # xs) = (finite_val x \<and> finite_vals xs)"

definition finite_dict :: "pydict \<Rightarrow> bool" where
  "finite_dict d = list_all (\<lambda>kv. finite_val (snd kv)) d"

subsection \<open>Applying a table to recordings given one file per channel\<close>

text \<open>
  \<^verbatim>\<open>frequency_bins = np.array(self.calibration_data["frequency_bins"])\<close>, evaluated
  once before the loop, and \<^verbatim>\<open>len(frequency_bins)\<close>, evaluated in the body of the loop.
\<close>

definition frequency_bins_array :: "pydict \<Rightarrow> error + pyarray" where
  "frequency_bins_array cd =
     (case dict_get cd ''frequency_bins'' of
        Inl e \<Rightarrow> Inl e
      | Inr bins \<Rightarrow> np_array bins)"

definition frequency_bin_count :: "pydict \<Rightarrow> error + nat" where
  "frequency_bin_count cd =
     (case frequency_bins_array cd of
        Inl e \<Rightarrow> Inl e
      | Inr frequency_bins \<Rightarrow> np_len frequency_bins)"

text \<open>
  The body of the loop of \<^verbatim>\<open>apply_calibration_folder\<close>, for the recording at position
  \<open>i\<close>:
  \<^verbatim>\<open>
    mic_fft = np.fft.rfft(mic_response, n=len(frequency_bins) * 2 - 1)
    calibration_factor = np.array(self.calibration_data["calibration_factors"][i])
    calibration_factor = np.resize(calibration_factor, mic_fft.shape)
    calibrated_fft = mic_fft * calibration_factor
    calibrated_response = np.fft.irfft(calibrated_fft, n=len(mic_response))
  \<close>
\<close>

definition folder_channel ::
  "pydict \<Rightarrow> pyarray \<Rightarrow> nat \<Rightarrow> real list \<Rightarrow> error + sample list" where
  "folder_channel cd frequency_bins i mic_response =
     (case np_len frequency_bins of
        Inl e \<Rightarrow> Inl e
      | Inr nbins \<Rightarrow>
          (case rfft mic_response (int nbins * 2 - 1) of
             Inl e \<Rightarrow> Inl e
           | Inr mic_fft \<Rightarrow>
               (case dict_get cd ''calibration_factors'' of
                  Inl e \<Rightarrow> Inl e
                | Inr factors \<Rightarrow>
                    (case list_get factors i of
                       Inl e \<Rightarrow> Inl e
                     | Inr row \<Rightarrow>
                         (case np_array row of
                            Inl e \<Rightarrow> Inl e
                          | Inr calibration_factor \<Rightarrow>
                              irfft_scaled
                                (scale_bins mic_fft
                                   (np_resize (entries calibration_factor) (length mic_fft)))
                                (int (length mic_response)))))))"

fun folder_loop ::
  "pydict \<Rightarrow> pyarray \<Rightarrow> nat \<Rightarrow> real list list \<Rightarrow> error + sample list list" where
  "folder_loop cd frequency_bins i [] = Inr []"
| "folder_loop cd frequency_bins i (mic_response # rest) =
     (case folder_channel cd frequency_bins i mic_response of
        Inl e \<Rightarrow> Inl e
      | Inr y \<Rightarrow>
          (case folder_loop cd frequency_bins (Suc i) rest of
             Inl e \<Rightarrow> Inl e
           | Inr ys \<Rightarrow> Inr (y # ys)))"

text \<open>
  \<^verbatim>\<open>apply_calibration_folder(self, mic_recordings, sample_rate)\<close>; the sample rate is
  not used.
\<close>

definition apply_calibration_folder ::
  "calibrator \<Rightarrow> real list list \<Rightarrow> error + sample list list" where
  "apply_calibration_folder self mic_recordings =
     (if calibration_data self = [] then Inl NotLoaded
      else
        (case frequency_bins_array (calibration_data self) of
           Inl e \<Rightarrow> Inl e
         | Inr frequency_bins \<Rightarrow>
             folder_loop (calibration_data self) frequency_bins 0 mic_recordings))"

subsection \<open>Applying a table to a multi-channel recording through a channel map\<close>

text \<open>
  The channel map \<^verbatim>\<open>mic_dict\<close>: a dictionary from channel names to dictionaries with
  the key \<^verbatim>\<open>mic_number\<close> (a float, as the number input of the user interface and the
  metadata file give it) and, optionally, \<^verbatim>\<open>location\<close>.
\<close>

datatype micval = MNum pyfloat | MDict "(string \<times> pyfloat) list"

type_synonym mic_info = "(string \<times> micval) list"

type_synonym mic_dict = "(string \<times> mic_info) list"

text \<open>The recordings handed to \<^verbatim>\<open>apply_calibration_file\<close>: a Python list or an array.\<close>

datatype recordings = RecList "real list list" | RecArray "real ndarray"

text \<open>
  \<^verbatim>\<open>int(mic_info["mic_number"]) - 1\<close>: \<^verbatim>\<open>int\<close> raises \<^verbatim>\<open>ValueError\<close> on NaN,
  \<^verbatim>\<open>OverflowError\<close> on an infinity and \<^verbatim>\<open>TypeError\<close> on a dictionary.
\<close>

fun mic_index :: "micval \<Rightarrow> error + int" where
  "mic_index (MNum (Fin x)) = Inr (py_int x - 1)"
| "mic_index (MNum NaN) = Inl InvalidInput"
| "mic_index (MNum PInf) = Inl OverflowError"
| "mic_index (MNum NInf) = Inl OverflowError"
| "mic_index (MDict d) = Inl TypeError"

text \<open>
  The first half of the body of the loop of \<^verbatim>\<open>apply_calibration_file\<close>: the row of the
  table for the channel named \<open>channel_name\<close>.
  \<^verbatim>\<open>
    mic_info = mic_dict.get(channel_name)
    if not mic_info or "mic_number" not in mic_info:
        raise ValueError(f"Missing microphone number for {channel_name}.")
    mic_number = int(mic_info["mic_number"]) - 1
    if mic_number < 0 or mic_number >= len(self.calibration_data["calibration_factors"]):
        raise ValueError(f"Invalid or out-of-range microphone number: {mic_number + 1}.")
  \<close>
\<close>

definition resolve_mic :: "pydict \<Rightarrow> mic_dict \<Rightarrow> string \<Rightarrow> error + nat" where
  "resolve_mic cd md channel_name =
     (case map_of md channel_name of
        None \<Rightarrow> Inl (MissingField channel_name)
      | Some mic_info \<Rightarrow>
          (case map_of mic_info ''mic_number'' of
             None \<Rightarrow> Inl (MissingField channel_name)
           | Some v \<Rightarrow>
               (case mic_index v of
                  Inl e \<Rightarrow> Inl e
                | Inr mic_number \<Rightarrow>
                    (if mic_number < 0 then Inl (OutOfRange (mic_number + 1))
                     else
                       (case dict_get cd ''calibration_factors'' of
                          Inl e \<Rightarrow> Inl e
                        | Inr factors \<Rightarrow>
                            (case py_len factors of
                               Inl e \<Rightarrow> Inl e
                             | Inr n \<Rightarrow>
                                 (if mic_number \<ge> int n
                                  then Inl (OutOfRange (mic_number + 1))
                                  else Inr (nat mic_number))))))))"

text \<open>
  The whole body, for the channel at position \<open>idx\<close> of an array with \<open>c\<close> columns:
  \<^verbatim>\<open>
    mic_response = mic_recordings[:, idx]
    mic_fft = np.fft.rfft(mic_response, n=len(frequency_bins) * 2 - 1)
    calibration_factor = np.array(self.calibration_data["calibration_factors"][mic_number])
    calibration_factor = np.resize(calibration_factor, mic_fft.shape)
    calibrated_fft = mic_fft * calibration_factor
    calibrated_response = np.fft.irfft(calibrated_fft, n=len(mic_response))
  \<close>
\<close>

definition file_channel ::
  "pydict \<Rightarrow> pyarray \<Rightarrow> mic_dict \<Rightarrow> nat \<Rightarrow> real list list \<Rightarrow> nat \<Rightarrow> string
     \<Rightarrow> error + sample list" where
  "file_channel cd frequency_bins md c rows idx channel_name =
     (case resolve_mic cd md channel_name of
        Inl e \<Rightarrow> Inl e
      | Inr mic_number \<Rightarrow>
          (case column c idx rows of
             Inl e \<Rightarrow> Inl e
           | Inr mic_response \<Rightarrow>
               (case np_len frequency_bins of
                  Inl e \<Rightarrow> Inl e
                | Inr nbins \<Rightarrow>
                    (case rfft mic_response (int nbins * 2 - 1) of
                       Inl e \<Rightarrow> Inl e
                     | Inr mic_fft \<Rightarrow>
                         (case dict_get cd ''calibration_factors'' of
                            Inl e \<Rightarrow> Inl e
                          | Inr factors \<Rightarrow>
                              (case list_get factors mic_number of
                                 Inl e \<Rightarrow> Inl e
                               | Inr row \<Rightarrow>
                                   (case np_array row of
                                      Inl e \<Rightarrow> Inl e
                                    | Inr calibration_factor \<Rightarrow>
                                        irfft_scaled
                                          (scale_bins mic_fft
                                             (np_resize (entries calibration_factor)
                                                (length mic_fft)))
                                          (int (length mic_response)))))))))"

fun file_loop ::
  "pydict \<Rightarrow> pyarray \<Rightarrow> mic_dict \<Rightarrow> nat \<Rightarrow> real list list \<Rightarrow> nat \<Rightarrow> string list
     \<Rightarrow> error + sample list list" where
  "file_loop cd frequency_bins md c rows idx [] = Inr []"
| "file_loop cd frequency_bins md c rows idx (channel_name # rest) =
     (case file_channel cd frequency_bins md c rows idx channel_name of
        Inl e \<Rightarrow> Inl e
      | Inr y \<Rightarrow>
          (case file_loop cd frequency_bins md c rows (Suc idx) rest of
             Inl e \<Rightarrow> Inl e
           | Inr ys \<Rightarrow> Inr (y # ys)))"

text \<open>
  \<^verbatim>\<open>np.transpose(np.array(calibrated_recordings))\<close> for a list of one-dimensional
  arrays of one length: the array whose column \<open>j\<close> is the \<open>j\<close>-th of them. Of an empty
  list, \<^verbatim>\<open>np.array\<close> makes an empty one-dimensional array, which its transpose leaves
  as it is.
\<close>

fun stack_transpose :: "'a list list \<Rightarrow> 'a ndarray" where
  "stack_transpose [] = Arr1 []"
| "stack_transpose (ch # chs) =
     Arr2 (length (ch # chs))
       (map (\<lambda>s. map (\<lambda>x. x ! s) (ch # chs)) [0..<length ch])"

text \<open>
  \<^verbatim>\<open>apply_calibration_file(self, mic_recordings, sample_rate, mic_dict)\<close>; the sample
  rate is not used, and \<^verbatim>\<open>mic_dict\<close> is a dictionary by its type.
\<close>

definition apply_calibration_file ::
  "calibrator \<Rightarrow> recordings \<Rightarrow> mic_dict \<Rightarrow> error + sample ndarray" where
  "apply_calibration_file self mic_recordings md =
     (if calibration_data self = [] then Inl NotLoaded
      else
        (let mic_channels = map fst md; num_channels = length mic_channels in
         case mic_recordings of
           RecList l \<Rightarrow> Inl ListInput
         | RecArray (Arr1 xs) \<Rightarrow> Inl BadRecordings
         | RecArray (Arr2 c rows) \<Rightarrow>
             (if c \<noteq> num_channels then Inl ShapeMismatch
              else
                (case frequency_bins_array (calibration_data self) of
                   Inl e \<Rightarrow> Inl e
                 | Inr frequency_bins \<Rightarrow>
                     (case file_loop (calibration_data self) frequency_bins md c rows 0
                             mic_channels of
                        Inl e \<Rightarrow> Inl e
                      | Inr calibrated_recordings \<Rightarrow>
                          Inr (stack_transpose calibrated_recordings))))))"

text \<open>Column \<open>j\<close> of an array, \<^verbatim>\<open>a[:, j]\<close>, for \<open>j\<close> within its shape.\<close>

fun channel_of :: "'a ndarray \<Rightarrow> nat \<Rightarrow> 'a list" where
  "channel_of (Arr2 c rows) j = map (\<lambda>r. r ! j) rows"
| "channel_of (Arr1 xs) j = []"

text \<open>
  The magnitude spectrum of a signal at its own length, \<^verbatim>\<open>np.abs(np.fft.rfft(x))\<close>.
\<close>

definition magnitude_spectrum :: "real list \<Rightarrow> error + real list" where
  "magnitude_spectrum x =
     (case rfft x (int (length x)) of
        Inl e \<Rightarrow> Inl e
      | Inr spectrum \<Rightarrow> Inr (map cmod spectrum))"

section \<open>Properties of the alignment\<close>

lemma first_channel_length:
  "first_channel a = Inr xs \<Longrightarrow> length xs = alen a"
  by (cases a) (auto simp: column_def split: if_splits)

lemma first_channel_total:
  "has_first_channel a \<Longrightarrow> \<exists>xs. first_channel a = Inr xs"
  by (cases a) (auto simp: column_def)

lemma first_channel_error:
  "first_channel a = Inl e \<Longrightarrow> \<not> has_first_channel a"
  by (cases a) (auto simp: column_def split: if_splits)

lemma shift_and_trim_length:
  "length (shift_and_trim ref mic offset) = length ref"
  by (simp add: shift_and_trim_def Let_def)

lemma correlate_full_empty:
  "a = [] \<or> v = [] \<Longrightarrow> correlate_full a v = Inl InvalidInput"
  by (simp add: correlate_full_def)

lemma correlate_full_nonempty:
  "a \<noteq> [] \<Longrightarrow> v \<noteq> [] \<Longrightarrow> \<exists>c. correlate_full a v = Inr c \<and> c \<noteq> []"
  by (cases a; cases v) (simp_all add: correlate_full_def)

lemma correlate_full_error:
  "correlate_full a v = Inl e \<Longrightarrow> e = InvalidInput"
  by (simp add: correlate_full_def split: if_splits)

lemma argmax_nonempty:
  "c \<noteq> [] \<Longrightarrow> \<exists>k. argmax c = Inr k"
  by (cases c) simp_all

lemma argmax_error:
  "argmax c = Inl e \<Longrightarrow> e = InvalidInput"
  by (cases c) simp_all

lemma align_offset_empty:
  "ref = [] \<or> mic = [] \<Longrightarrow> align_offset ref mic = Inl InvalidInput"
  by (auto simp: align_offset_def correlate_full_def)

lemma align_offset_total:
  assumes "ref \<noteq> []" and "mic \<noteq> []"
  shows "\<exists>offset. align_offset ref mic = Inr offset"
proof -
  from correlate_full_nonempty [OF assms(2) assms(1)]
  obtain c where c: "correlate_full mic ref = Inr c" "c \<noteq> []" by blast
  from argmax_nonempty [OF c(2)] obtain k where "argmax c = Inr k" by blast
  with c(1) show ?thesis by (simp add: align_offset_def)
qed

lemma align_offset_error:
  "align_offset ref mic = Inl e \<Longrightarrow> e = InvalidInput"
  by (auto simp: align_offset_def split: sum.splits
           dest: correlate_full_error argmax_error)

lemma align_one_length:
  "align_one ref m = Inr a \<Longrightarrow> length a = length ref"
  by (auto simp: align_one_def shift_and_trim_length split: sum.splits)

lemma align_one_total:
  assumes "ref \<noteq> []" and "has_samples m"
  shows "\<exists>a. align_one ref m = Inr a"
proof -
  from assms(2) obtain mic where mic: "first_channel m = Inr mic"
    using first_channel_total by (auto simp: has_samples_def)
  with assms(2) have "mic \<noteq> []"
    using first_channel_length [OF mic] by (auto simp: has_samples_def)
  from align_offset_total [OF assms(1) this] mic show ?thesis
    by (auto simp: align_one_def)
qed

lemma align_one_fails:
  "align_one ref m = Inl e \<Longrightarrow> has_first_channel m \<Longrightarrow> e = InvalidInput"
  by (auto simp: align_one_def split: sum.splits
           dest: first_channel_error align_offset_error)

lemma align_one_empty:
  assumes "ref = [] \<or> alen m = 0"
  shows "\<exists>e. align_one ref m = Inl e"
proof (cases "first_channel m")
  case (Inl e)
  then show ?thesis by (simp add: align_one_def)
next
  case (Inr mic)
  with assms have "ref = [] \<or> mic = []"
    using first_channel_length [OF Inr] by auto
  from align_offset_empty [OF this] Inr show ?thesis
    by (simp add: align_one_def)
qed

lemma align_loop_length:
  "align_loop ref ms = Inr out \<Longrightarrow>
     length out = length ms \<and> list_all (\<lambda>s. length s = length ref) out"
proof (induction ms arbitrary: out)
  case Nil
  then show ?case by simp
next
  case (Cons m ms)
  then show ?case
    by (auto split: sum.splits dest: align_one_length)
qed

lemma align_loop_total:
  "ref \<noteq> [] \<Longrightarrow> list_all has_samples ms \<Longrightarrow> \<exists>out. align_loop ref ms = Inr out"
proof (induction ms)
  case Nil
  then show ?case by simp
next
  case (Cons m ms)
  then obtain a out where "align_one ref m = Inr a" "align_loop ref ms = Inr out"
    using align_one_total [of ref m] by auto
  then show ?case by simp
qed

lemma align_loop_fails:
  "align_loop ref ms = Inl e \<Longrightarrow> list_all has_first_channel ms \<Longrightarrow> e = InvalidInput"
proof (induction ms)
  case Nil
  then show ?case by simp
next
  case (Cons m ms)
  then show ?case
    by (auto split: sum.splits dest: align_one_fails)
qed

lemma align_loop_empty_signal:
  "ms \<noteq> [] \<Longrightarrow> ref = [] \<or> (\<exists>m \<in> set ms. alen m = 0) \<Longrightarrow> \<exists>e. align_loop ref ms = Inl e"
proof (induction ms)
  case Nil
  then show ?case by simp
next
  case (Cons m ms)
  show ?case
  proof (cases "ref = [] \<or> alen m = 0")
    case True
    from align_one_empty [OF this] show ?thesis by auto
  next
    case False
    with Cons.prems have "ms \<noteq> []" and "ref = [] \<or> (\<exists>m \<in> set ms. alen m = 0)"
      by auto
    from Cons.IH [OF this] show ?thesis
      by (auto split: sum.splits)
  qed
qed

lemma align_signals_length:
  assumes "align_signals ref_signal mic_signals = Inr out"
  shows "length out = length mic_signals \<and> list_all (\<lambda>s. length s = alen ref_signal) out"
proof -
  from assms obtain ref where ref: "first_channel ref_signal = Inr ref"
    and loop: "align_loop ref mic_signals = Inr out"
    by (auto simp: align_signals_def split: sum.splits)
  from first_channel_length [OF ref] align_loop_length [OF loop] show ?thesis
    by simp
qed

lemma align_signals_total:
  assumes "has_samples ref_signal" and "list_all has_samples mic_signals"
  shows "\<exists>out. align_signals ref_signal mic_signals = Inr out"
proof -
  from assms(1) obtain ref where ref: "first_channel ref_signal = Inr ref"
    using first_channel_total by (auto simp: has_samples_def)
  with assms(1) have "ref \<noteq> []"
    using first_channel_length [OF ref] by (auto simp: has_samples_def)
  from align_loop_total [OF this assms(2)] ref show ?thesis
    by (simp add: align_signals_def)
qed

text \<open>
  Claim C5 (alignment output length). Whenever \<open>align_signals\<close> returns, it returns one
  signal for every input signal, and each of them has exactly \<open>len(reference)\<close> samples;
  and it does return whenever the reference and all input signals have at least one
  sample (and, if two-dimensional, at least one channel).
\<close>

theorem align_output_length:
  "(has_samples ref_signal \<and> list_all has_samples mic_signals
      \<longrightarrow> (\<exists>out. align_signals ref_signal mic_signals = Inr out))
   \<and> (\<forall>out. align_signals ref_signal mic_signals = Inr out
      \<longrightarrow> length out = length mic_signals
          \<and> list_all (\<lambda>s. length s = alen ref_signal) out)"
  using align_signals_total align_signals_length by blast

theorem align_output_length_witness:
  "has_samples (Arr1 [1, 2, 3]) \<and> list_all has_samples [Arr1 [0, 0, 1, 2, 3]]
   \<and> align_signals (Arr1 [1, 2, 3]) [Arr1 [0, 0, 1, 2, 3]] = Inr [[0, 1, 2]]
   \<and> length [[0, 1, 2 :: real]] = length [Arr1 [0, 0, 1, 2, 3 :: real]]
   \<and> list_all (\<lambda>s. length s = alen (Arr1 [1, 2, 3])) [[0, 1, 2 :: real]]"
proof -
  have hyp: "has_samples (Arr1 [1, 2, 3]) \<and> list_all has_samples [Arr1 [0, 0, 1, 2, 3]]"
    by (simp add: has_samples_def)
  have run: "align_signals (Arr1 [1, 2, 3]) [Arr1 [0, 0, 1, 2, 3]] = Inr [[0, 1, 2]]"
    by (simp add: align_signals_def align_one_def align_offset_def correlate_full_def
          getz_def shift_and_trim_def upt_rec)
  from align_output_length [of "Arr1 [1, 2, 3]" "[Arr1 [0, 0, 1, 2, 3]]"] hyp run
  show ?thesis by simp
qed

text \<open>
  The reference delayed by \<open>k\<close> samples, whenever the correlation peaks at the index
  \<open>len(reference) - 1 + k\<close> of the true lag: the offset is \<open>k - 1\<close> and the aligned
  signal is the reference delayed by one sample.
\<close>

lemma shift_and_trim_true_lag:
  assumes "ref \<noteq> []"
  shows "shift_and_trim ref (replicate k 0 @ ref) (int k - 1) = 0 # butlast ref"
proof -
  have trimmed: "take (length ref) (0 # ref) = 0 # butlast ref"
    using assms by (cases ref rule: rev_cases) simp_all
  have len: "length (0 # butlast ref) = length ref"
    using assms by simp
  have shifted: "(if int k - 1 > 0 then drop (nat (int k - 1)) (replicate k 0 @ ref)
                  else replicate (nat \<bar>int k - 1\<bar>) 0 @ replicate k 0 @ ref) = 0 # ref"
  proof (cases "k = 0")
    case True
    then show ?thesis by simp
  next
    case False
    then obtain j where j: "k = Suc j" by (cases k) auto
    show ?thesis
    proof (cases "j = 0")
      case True
      with j show ?thesis by simp
    next
      case False
      have "replicate (Suc j) (0::real) = replicate j 0 @ [0]"
        by (simp add: replicate_append_same)
      then have "drop j (replicate (Suc j) (0::real) @ ref) = 0 # ref"
        by (simp del: replicate_Suc)
      with False j show ?thesis by (simp del: replicate_Suc)
    qed
  qed
  show ?thesis
    unfolding shift_and_trim_def Let_def shifted trimmed len by simp
qed

lemma align_one_true_lag:
  assumes "ref \<noteq> []"
    and "correlate_full (replicate k 0 @ ref) ref = Inr correlation"
    and "argmax correlation = Inr (length ref - 1 + k)"
  shows "align_one ref (Arr1 (replicate k 0 @ ref)) = Inr (0 # butlast ref)"
proof -
  from assms(1) have "int (length ref - 1 + k) - int (length ref) = int k - 1"
    by (cases ref) simp_all
  with assms(2,3) have "align_offset ref (replicate k 0 @ ref) = Inr (int k - 1)"
    by (simp add: align_offset_def)
  with shift_and_trim_true_lag [OF assms(1), of k] show ?thesis
    by (simp add: align_one_def)
qed


lemma argmax_from_no_larger:
  "\<forall>y \<in> set xs. y \<le> v \<Longrightarrow> argmax_from xs i best v = best"
  by (induction xs arbitrary: i) auto

lemma argmax_from_strict_peak:
  "p < length xs \<Longrightarrow> \<forall>j < length xs. j \<noteq> p \<longrightarrow> xs ! j < xs ! p \<Longrightarrow> v < xs ! p
     \<Longrightarrow> argmax_from xs i best v = i + p"
proof (induction xs arbitrary: i best v p)
  case Nil
  then show ?case by simp
next
  case (Cons x xs)
  show ?case
  proof (cases p)
    case 0
    with Cons.prems have "\<forall>y \<in> set xs. y \<le> x"
      by (fastforce simp: in_set_conv_nth)
    with 0 Cons.prems(3) show ?thesis
      by (simp add: argmax_from_no_larger)
  next
    case (Suc q)
    with Cons.prems have q: "q < length xs"
      and peak: "\<forall>j < length xs. j \<noteq> q \<longrightarrow> xs ! j < xs ! q"
      and x: "x < xs ! q" and v: "v < xs ! q"
      by fastforce+
    show ?thesis
      using Cons.IH [OF q peak x] Cons.IH [OF q peak v] Suc by simp
  qed
qed

lemma argmax_strict_peak:
  assumes "p < length xs" and "\<forall>j < length xs. j \<noteq> p \<longrightarrow> xs ! j < xs ! p"
  shows "argmax xs = Inr p"
proof (cases xs)
  case Nil
  with assms show ?thesis by simp
next
  case (Cons x ys)
  show ?thesis
  proof (cases p)
    case 0
    with assms Cons have "\<forall>y \<in> set ys. y \<le> x"
      by (fastforce simp: in_set_conv_nth)
    with 0 Cons show ?thesis by (simp add: argmax_from_no_larger)
  next
    case (Suc q)
    with assms Cons have q: "q < length ys"
      and peak: "\<forall>j < length ys. j \<noteq> q \<longrightarrow> ys ! j < ys ! q"
      and x: "x < ys ! q"
      by fastforce+
    from argmax_from_strict_peak [OF q peak x] Suc Cons show ?thesis by simp
  qed
qed


lemma getz_outside: "i < 0 \<or> int (length v) \<le> i \<Longrightarrow> getz v i = 0"
  by (auto simp: getz_def)

lemma getz_inside: "i < length v \<Longrightarrow> getz v (int i) = v ! i"
  by (simp add: getz_def)

lemma shifted_energy:
  "(\<Sum>t \<in> {0..<int (length v)}. (getz v (t + d))\<^sup>2)
     \<le> (\<Sum>t \<in> {0..<int (length v)}. (getz v t)\<^sup>2)"
proof -
  let ?S = "{0..<int (length v)}"
  let ?T = "(\<lambda>t. t + d) ` ?S"
  have inj: "inj_on (\<lambda>t. t + d) ?S" by (simp add: inj_on_def)
  have "(\<Sum>t \<in> ?S. (getz v (t + d))\<^sup>2) = (\<Sum>s \<in> ?T. (getz v s)\<^sup>2)"
    using sum.reindex [OF inj, of "\<lambda>s. (getz v s)\<^sup>2"] by (simp only: o_def)
  also have "\<dots> = (\<Sum>s \<in> ?T \<inter> ?S. (getz v s)\<^sup>2)"
    by (rule sum.mono_neutral_right) (auto simp: getz_outside)
  also have "\<dots> \<le> (\<Sum>s \<in> ?S. (getz v s)\<^sup>2)"
    by (rule sum_mono2) auto
  finally show ?thesis .
qed

lemma nonzero_sample_with_zero_shift:
  assumes "\<exists>a \<in> set v. a \<noteq> 0" and "d \<noteq> 0"
  shows "\<exists>t \<in> {0..<int (length v)}. getz v t \<noteq> 0 \<and> getz v (t + d) = 0"
proof -
  let ?N = "{i. i < length v \<and> v ! i \<noteq> 0}"
  have fin: "finite ?N" by simp
  from assms(1) have ne: "?N \<noteq> {}" by (auto simp: in_set_conv_nth)
  show ?thesis
  proof (cases "0 < d")
    case True
    let ?i = "Max ?N"
    from Max_in [OF fin ne] have i: "?i < length v" "v ! ?i \<noteq> 0" by auto
    have "getz v (int ?i + d) = 0"
    proof (cases "int ?i + d < int (length v)")
      case False
      then show ?thesis by (simp add: getz_outside)
    next
      case inside: True
      let ?j = "nat (int ?i + d)"
      from True inside have j: "?j < length v" "?i < ?j" by auto
      have "v ! ?j = 0"
      proof (rule ccontr)
        assume "v ! ?j \<noteq> 0"
        with j(1) have "?j \<in> ?N" by simp
        from Max_ge [OF fin this] j(2) show False by simp
      qed
      then have "getz v (int ?j) = 0" using j(1) by (simp only: getz_inside)
      moreover from True have eq: "int ?i + d = int ?j" by simp
      ultimately show ?thesis by (subst eq)
    qed
    with i show ?thesis
      by (intro bexI [of _ "int ?i"]) (simp_all add: getz_inside)
  next
    case False
    with assms(2) have neg: "d < 0" by simp
    let ?i = "Min ?N"
    from Min_in [OF fin ne] have i: "?i < length v" "v ! ?i \<noteq> 0" by auto
    have "getz v (int ?i + d) = 0"
    proof (cases "0 \<le> int ?i + d")
      case False
      then show ?thesis by (simp add: getz_outside)
    next
      case inside: True
      let ?j = "nat (int ?i + d)"
      from neg inside i(1) have j: "?j < length v" "?j < ?i" by auto
      have "v ! ?j = 0"
      proof (rule ccontr)
        assume "v ! ?j \<noteq> 0"
        with j(1) have "?j \<in> ?N" by simp
        from Min_le [OF fin this] j(2) show False by simp
      qed
      then have "getz v (int ?j) = 0" using j(1) by (simp only: getz_inside)
      moreover from inside have eq: "int ?i + d = int ?j" by simp
      ultimately show ?thesis by (subst eq)
    qed
    with i show ?thesis
      by (intro bexI [of _ "int ?i"]) (simp_all add: getz_inside)
  qed
qed

lemma autocorrelation_strict:
  assumes "\<exists>a \<in> set v. a \<noteq> 0" and "d \<noteq> 0"
  shows "(\<Sum>t \<in> {0..<int (length v)}. getz v t * getz v (t + d))
           < (\<Sum>t \<in> {0..<int (length v)}. (getz v t)\<^sup>2)"
proof -
  let ?S = "{0..<int (length v)}"
  let ?A = "\<Sum>t \<in> ?S. getz v t * getz v (t + d)"
  let ?E = "\<Sum>t \<in> ?S. (getz v t)\<^sup>2"
  have le: "\<forall>t \<in> ?S. 2 * (getz v t * getz v (t + d)) \<le> (getz v t)\<^sup>2 + (getz v (t + d))\<^sup>2"
    using sum_squares_bound [where 'a = real] by (simp add: mult.assoc)
  from nonzero_sample_with_zero_shift [OF assms]
  obtain t where t: "t \<in> ?S" "getz v t \<noteq> 0" "getz v (t + d) = 0" by blast
  then have "2 * (getz v t * getz v (t + d)) < (getz v t)\<^sup>2 + (getz v (t + d))\<^sup>2"
    by simp
  with t(1)
  have lt: "\<exists>t \<in> ?S. 2 * (getz v t * getz v (t + d)) < (getz v t)\<^sup>2 + (getz v (t + d))\<^sup>2"
    by blast
  have "2 * ?A = (\<Sum>t \<in> ?S. 2 * (getz v t * getz v (t + d)))"
    by (simp add: sum_distrib_left)
  also have "\<dots> < (\<Sum>t \<in> ?S. (getz v t)\<^sup>2 + (getz v (t + d))\<^sup>2)"
    by (rule sum_strict_mono_ex1) (use le lt in simp_all)
  also have "\<dots> = ?E + (\<Sum>t \<in> ?S. (getz v (t + d))\<^sup>2)"
    by (simp add: sum.distrib)
  also have "\<dots> \<le> ?E + ?E"
    using shifted_energy [of v d] by simp
  finally show ?thesis by simp
qed


lemma correlate_delayed_entry:
  "(\<Sum>m\<leftarrow>[0..<length (replicate k 0 @ ref)].
       (replicate k 0 @ ref) ! m * getz ref (int m - int j + int (length ref) - 1))
   = (\<Sum>t \<in> {0..<int (length ref)}.
        getz ref t * getz ref (t + (int k + int (length ref) - 1 - int j)))"
proof -
  let ?L = "length ref"
  let ?d = "int k + int ?L - 1 - int j"
  let ?f = "\<lambda>s. getz ref s * getz ref (s + ?d)"
  let ?g = "\<lambda>m. int m - int k"
  have mic: "(replicate k 0 @ ref) ! m = getz ref (int m - int k)" if "m < k + ?L" for m
  proof (cases "m < k")
    case True
    then show ?thesis by (simp add: nth_append getz_outside)
  next
    case False
    with that have inside: "m - k < ?L" by simp
    from False have "(replicate k 0 @ ref) ! m = ref ! (m - k)"
      by (simp add: nth_append)
    also from inside have "\<dots> = getz ref (int (m - k))"
      by (simp only: getz_inside)
    also from False have "int (m - k) = int m - int k"
      by simp
    finally show ?thesis .
  qed
  have "(\<Sum>m\<leftarrow>[0..<length (replicate k 0 @ ref)].
           (replicate k 0 @ ref) ! m * getz ref (int m - int j + int ?L - 1))
        = (\<Sum>m \<in> {0..<k + ?L}.
           (replicate k 0 @ ref) ! m * getz ref (int m - int j + int ?L - 1))"
    by (simp add: interv_sum_list_conv_sum_set_nat)
  also have "\<dots> = (\<Sum>m \<in> {0..<k + ?L}. ?f (?g m))"
  proof (rule sum.cong [OF refl])
    fix m assume "m \<in> {0..<k + ?L}"
    then have "m < k + ?L" by simp
    moreover have "int m - int j + int ?L - 1 = ?g m + ?d" by simp
    ultimately show "(replicate k 0 @ ref) ! m * getz ref (int m - int j + int ?L - 1)
                       = ?f (?g m)"
      by (simp only: mic)
  qed
  also have "\<dots> = (\<Sum>s \<in> ?g ` {0..<k + ?L}. ?f s)"
  proof -
    have inj: "inj_on ?g {0..<k + ?L}" by (simp add: inj_on_def)
    show ?thesis using sum.reindex [OF inj, of ?f] by (simp only: o_def)
  qed
  also have "?g ` {0..<k + ?L} = {- int k..<int ?L}"
  proof (intro set_eqI iffI)
    fix s assume "s \<in> ?g ` {0..<k + ?L}"
    then show "s \<in> {- int k..<int ?L}" by auto
  next
    fix s assume s: "s \<in> {- int k..<int ?L}"
    then have "nat (s + int k) \<in> {0..<k + ?L}" and "s = ?g (nat (s + int k))" by auto
    then show "s \<in> ?g ` {0..<k + ?L}" by (rule rev_image_eqI)
  qed
  also have "(\<Sum>s \<in> {- int k..<int ?L}. ?f s) = (\<Sum>s \<in> {0..<int ?L}. ?f s)"
    by (rule sum.mono_neutral_right) (auto simp: getz_outside)
  finally show ?thesis .
qed

lemma correlate_delayed_peak:
  assumes "\<exists>a \<in> set ref. a \<noteq> 0"
  shows "\<exists>c. correlate_full (replicate k 0 @ ref) ref = Inr c
             \<and> argmax c = Inr (length ref - 1 + k)"
proof -
  let ?L = "length ref"
  let ?mic = "replicate k 0 @ ref"
  let ?A = "\<lambda>d. \<Sum>t \<in> {0..<int ?L}. getz ref t * getz ref (t + d)"
  let ?c = "map (\<lambda>j. \<Sum>m\<leftarrow>[0..<length ?mic].
                     ?mic ! m * getz ref (int m - int j + int ?L - 1))
                [0..<length ?mic + ?L - 1]"
  let ?p = "?L - 1 + k"
  from assms have ne: "ref \<noteq> []" by auto
  then have L: "0 < ?L" by simp
  from ne have c: "correlate_full ?mic ref = Inr ?c"
    by (simp add: correlate_full_def)
  have len: "length ?c = k + ?L + ?L - 1" by simp
  from L have p: "?p < length ?c" unfolding len by arith
  have entry: "?c ! j = ?A (int k + int ?L - 1 - int j)" if "j < length ?c" for j
  proof -
    from that have "j < length ?mic + ?L - 1" by simp
    then have "?c ! j = (\<Sum>m\<leftarrow>[0..<length ?mic].
                          ?mic ! m * getz ref (int m - int j + int ?L - 1))"
      by (simp del: upt_Suc length_append length_replicate)
    then show ?thesis by (simp only: correlate_delayed_entry)
  qed
  from L have dp: "int k + int ?L - 1 - int ?p = 0" by arith
  have "?c ! ?p = ?A 0"
    using entry [OF p] by (simp only: dp)
  also have "\<dots> = (\<Sum>t \<in> {0..<int ?L}. (getz ref t)\<^sup>2)"
    by (simp only: add_0_right power2_eq_square)
  finally have peak: "?c ! ?p = (\<Sum>t \<in> {0..<int ?L}. (getz ref t)\<^sup>2)" .
  have "?c ! j < ?c ! ?p" if "j < length ?c" and "j \<noteq> ?p" for j
  proof -
    from that(2) L have "int k + int ?L - 1 - int j \<noteq> 0" by arith
    from autocorrelation_strict [OF assms this]
    have "?A (int k + int ?L - 1 - int j) < (\<Sum>t \<in> {0..<int ?L}. (getz ref t)\<^sup>2)" .
    then show ?thesis by (simp only: entry [OF that(1)] peak)
  qed
  then have "argmax ?c = Inr ?p"
    using argmax_strict_peak [OF p] by blast
  with c show ?thesis by blast
qed

lemma delayed_by_one_differs:
  assumes "\<exists>a \<in> set ref. a \<noteq> 0"
  shows "0 # butlast ref \<noteq> ref"
proof
  assume eq: "0 # butlast ref = ref"
  have "ref ! i = 0" if "i < length ref" for i
    using that
  proof (induction i)
    case 0
    then show ?case by (subst eq [symmetric]) simp
  next
    case (Suc i)
    then have "i < length (butlast ref)" by simp
    then have "butlast ref ! i = ref ! i" by (rule nth_butlast)
    moreover have "ref ! Suc i = butlast ref ! i" by (subst eq [symmetric]) simp
    ultimately show ?case using Suc by simp
  qed
  with assms show False by (auto simp: in_set_conv_nth)
qed


text \<open>
  Claim C4 (alignment recovery), as the code behaves. Let the reference have a non-zero
  sample and let the input be the reference delayed by \<open>k\<close> samples (\<open>k\<close> zeros in
  front of it). The full cross-correlation has its single largest entry at index
  \<open>len(reference) - 1 + k\<close>, and the code subtracts \<open>len(reference)\<close> from that
  index: the offset is \<open>k - 1\<close>, not \<open>k\<close>, and the aligned signal is the reference
  delayed by one sample, its last sample lost; it is never the reference. This holds for
  \<open>k = 0\<close> too: the reference aligned with itself comes back delayed by one sample.
\<close>

theorem align_delayed_copy_off_by_one:
  assumes "\<exists>a \<in> set ref. a \<noteq> 0"
  shows "align_offset ref (replicate k 0 @ ref) = Inr (int k - 1)
         \<and> align_signals (Arr1 ref) [Arr1 (replicate k 0 @ ref)] = Inr [0 # butlast ref]
         \<and> 0 # butlast ref \<noteq> ref"
proof -
  from assms have ne: "ref \<noteq> []" by auto
  from correlate_delayed_peak [OF assms, of k] obtain c where
    c: "correlate_full (replicate k 0 @ ref) ref = Inr c"
    and peak: "argmax c = Inr (length ref - 1 + k)"
    by blast
  from ne have "int (length ref - 1 + k) - int (length ref) = int k - 1"
    by (cases ref) simp_all
  with c peak have "align_offset ref (replicate k 0 @ ref) = Inr (int k - 1)"
    by (simp add: align_offset_def)
  moreover from align_one_true_lag [OF ne c peak]
  have "align_signals (Arr1 ref) [Arr1 (replicate k 0 @ ref)] = Inr [0 # butlast ref]"
    by (simp add: align_signals_def)
  ultimately show ?thesis
    using delayed_by_one_differs [OF assms] by simp
qed

theorem align_delayed_copy_off_by_one_witness:
  "(\<exists>a \<in> set [1, 2, 3 :: real]. a \<noteq> 0)
   \<and> correlate_full [0, 0, 1, 2, 3] [1, 2, 3] = Inr [0, 0, 3, 8, 14, 8, 3]
   \<and> align_offset [1, 2, 3] [0, 0, 1, 2, 3] = Inr 1
   \<and> align_signals (Arr1 [1, 2, 3]) [Arr1 [0, 0, 1, 2, 3]] = Inr [[0, 1, 2]]
   \<and> align_offset [1, 2, 3] [1, 2, 3] = Inr (- 1)
   \<and> align_signals (Arr1 [1, 2, 3]) [Arr1 [1, 2, 3]] = Inr [[0, 1, 2]]
   \<and> [0, 1, 2] \<noteq> [1, 2, 3 :: real]"
proof -
  have h: "\<exists>a \<in> set [1, 2, 3 :: real]. a \<noteq> 0" by simp
  have corr: "correlate_full [0, 0, 1, 2, 3] [1, 2, 3] = Inr [0, 0, 3, 8, 14, 8, 3]"
    by (simp add: correlate_full_def getz_def upt_rec)
  have two: "replicate 2 0 @ [1, 2, 3 :: real] = [0, 0, 1, 2, 3]"
    by (simp add: numeral_2_eq_2)
  from align_delayed_copy_off_by_one [OF h, of 2] align_delayed_copy_off_by_one [OF h, of 0]
    h corr
  show ?thesis by (simp add: two)
qed

text \<open>
  Claim C9 as stated fails on a call without input signals: with an empty reference and
  an empty collection the loop never runs, nothing is correlated and \<open>align_signals\<close>
  returns the empty list.
\<close>

theorem align_empty_reference_no_signals:
  "alen (Arr1 []) = 0 \<and> align_signals (Arr1 []) [] = Inr []"
  by (simp add: align_signals_def)

text \<open>
  Claim C9, amended. For every call to \<open>align_signals\<close> with at least one input signal
  in which the reference or some input signal is empty, the call fails and returns no
  signals; the failure is the \<^verbatim>\<open>ValueError\<close> of the correlation (\<open>InvalidInput\<close>)
  whenever every array is one-dimensional or has at least one channel.
\<close>

theorem align_empty_signal_fails:
  assumes "mic_signals \<noteq> []"
    and "alen ref_signal = 0 \<or> (\<exists>m \<in> set mic_signals. alen m = 0)"
  shows "(\<exists>e. align_signals ref_signal mic_signals = Inl e)
         \<and> (has_first_channel ref_signal \<and> list_all has_first_channel mic_signals
              \<longrightarrow> align_signals ref_signal mic_signals = Inl InvalidInput)"
proof (cases "first_channel ref_signal")
  case (Inl e)
  then show ?thesis
    by (auto simp: align_signals_def dest: first_channel_error)
next
  case (Inr ref)
  from assms(2) first_channel_length [OF Inr]
  have "ref = [] \<or> (\<exists>m \<in> set mic_signals. alen m = 0)" by auto
  from align_loop_empty_signal [OF assms(1) this]
  obtain e where e: "align_loop ref mic_signals = Inl e" by blast
  with Inr have fails: "align_signals ref_signal mic_signals = Inl e"
    by (simp add: align_signals_def)
  from e have "list_all has_first_channel mic_signals \<Longrightarrow> e = InvalidInput"
    by (rule align_loop_fails)
  with fails show ?thesis by auto
qed

theorem align_empty_signal_fails_witness:
  "[Arr1 [1, 2 :: real], Arr1 []] \<noteq> []
   \<and> (alen (Arr1 [1, 2]) = 0 \<or> (\<exists>m \<in> set [Arr1 [1, 2], Arr1 []]. alen m = 0))
   \<and> has_first_channel (Arr1 [1, 2])
   \<and> list_all has_first_channel [Arr1 [1, 2], Arr1 []]
   \<and> align_signals (Arr1 [1, 2]) [Arr1 [1, 2], Arr1 []] = Inl InvalidInput"
proof -
  have h1: "[Arr1 [1, 2 :: real], Arr1 []] \<noteq> []" by simp
  have h2: "alen (Arr1 [1, 2]) = 0 \<or> (\<exists>m \<in> set [Arr1 [1, 2], Arr1 []]. alen m = 0)"
    by simp
  from align_empty_signal_fails [OF h1 h2] h2 show ?thesis by simp
qed

section \<open>Properties of the analysis\<close>

lemma pad_or_trim_length: "length (pad_or_trim n xs) = n"
  by (simp add: pad_or_trim_def)

lemma pad_or_trim_self: "pad_or_trim (length xs) xs = xs"
  by (simp add: pad_or_trim_def)

lemma rfft_pos:
  "0 < n \<Longrightarrow> rfft a (int n) = Inr (map (dft_bin (pad_or_trim n a)) [0..<n div 2 + 1])"
  by (simp add: rfft_def)

lemma rfft_length:
  "rfft a n = Inr spectrum \<Longrightarrow> length spectrum = nat n div 2 + 1"
  by (auto simp: rfft_def split: if_splits)

lemma rfft_error: "rfft a n = Inl e \<Longrightarrow> n < 1 \<and> e = InvalidInput"
  by (auto simp: rfft_def split: if_splits)

lemma irfft_length: "irfft X n = Inr x \<Longrightarrow> int (length x) = n"
  by (auto simp: irfft_def split: if_splits)

lemma irfft_error: "irfft X n = Inl e \<Longrightarrow> n < 1 \<and> e = InvalidInput"
  by (auto simp: irfft_def split: if_splits)



text \<open>
  Sums of roots of unity, and the spectrum of the signal that \<open>irfft\<close> returns at an
  odd length.
\<close>

lemma cis_fraction_not_one:
  fixes d :: int
  assumes "0 < n" and "d \<noteq> 0" and "\<bar>d\<bar> < int n"
  shows "cis (2 * pi * real_of_int d / real n) \<noteq> 1"
proof
  assume "cis (2 * pi * real_of_int d / real n) = 1"
  then have "cos (2 * pi * real_of_int d / real n) = 1"
    by (simp add: complex_eq_iff)
  then obtain m :: int where m: "2 * pi * real_of_int d / real n = real_of_int m * 2 * pi"
    by (auto simp: cos_one_2pi_int)
  with assms(1) have "real_of_int d = real_of_int m * real n"
    by (simp add: field_simps)
  then have "real_of_int d = real_of_int (m * int n)" by simp
  then have eq: "d = m * int n" by (simp only: of_int_eq_iff)
  with assms(2) have "m \<noteq> 0" by auto
  then have "1 \<le> \<bar>m\<bar>" by simp
  then have "1 * int n \<le> \<bar>m\<bar> * int n" by (rule mult_right_mono) simp
  then have "int n \<le> \<bar>m\<bar> * int n" by simp
  with eq assms(3) show False by (simp add: abs_mult)
qed

lemma root_of_unity_sum:
  fixes d :: int
  assumes "0 < n" and "\<bar>d\<bar> < int n"
  shows "(\<Sum>j<n. cis (2 * pi * real_of_int d * real j / real n))
           = (if d = 0 then of_nat n else 0)"
proof (cases "d = 0")
  case True
  then show ?thesis by simp
next
  case False
  let ?z = "cis (2 * pi * real_of_int d / real n)"
  from cis_fraction_not_one [OF assms(1) False assms(2)] have z: "?z \<noteq> 1" .
  have pw: "?z ^ j = cis (2 * pi * real_of_int d * real j / real n)" for j
    by (simp add: DeMoivre algebra_simps)
  have "?z ^ n = cis (2 * pi * real_of_int d)"
    using assms(1) by (simp add: DeMoivre)
  also have "\<dots> = 1" by (rule cis_multiple_2pi) simp
  finally have one: "?z ^ n = 1" .
  have "(\<Sum>j<n. cis (2 * pi * real_of_int d * real j / real n)) = (\<Sum>j<n. ?z ^ j)"
    by (simp only: pw)
  also have "\<dots> = (?z ^ n - 1) / (?z - 1)"
    by (rule geometric_sum [OF z])
  also have "\<dots> = 0" by (simp add: one)
  finally show ?thesis using False by simp
qed

lemma irfft_sample_odd:
  assumes "odd n" and "Im (Y ! 0) = 0"
  shows "complex_of_real (irfft_sample Y n j) =
           (Y ! 0 + (\<Sum>k \<in> {1..<(n + 1) div 2}.
                       Y ! k * cis (2 * pi * real k * real j / real n)
                       + cnj (Y ! k) * cis (- (2 * pi * real k * real j / real n))))
           / of_nat n"
proof -
  have zero: "complex_of_real (Re (Y ! 0)) = Y ! 0"
    using assms(2) by (simp add: complex_eq_iff)
  have two: "complex_of_real (2 * Re (z * cis t)) = z * cis t + cnj z * cis (- t)" for z t
  proof -
    have "cnj (z * cis t) = cnj z * cis (- t)" by (simp add: cis_cnj)
    with complex_add_cnj [of "z * cis t"] show ?thesis by (simp only:)
  qed
  have "complex_of_real (irfft_sample Y n j) =
          (complex_of_real (Re (Y ! 0))
           + (\<Sum>k \<in> {1..<(n + 1) div 2}.
                complex_of_real (2 * Re (Y ! k * cis (2 * pi * real k * real j / real n)))))
          / of_nat n"
    using assms(1)
    by (simp add: irfft_sample_def interv_sum_list_conv_sum_set_nat del: of_real_mult)
  then show ?thesis by (simp only: zero two)
qed

lemma dft_of_irfft_odd:
  assumes "odd n" and "Im (Y ! 0) = 0" and "l \<le> n div 2"
  shows "(\<Sum>j<n. complex_of_real (irfft_sample Y n j)
                  * cis (- (2 * pi * real l * real j / real n))) = Y ! l"
proof -
  define M where "M = n div 2"
  from assms(1) have n: "n = 2 * M + 1" and half: "(n + 1) div 2 = M + 1"
    unfolding M_def by (auto elim: oddE)
  from n have pos: "0 < n" by simp
  from assms(3) have l: "l \<le> M" by (simp add: M_def)
  define c where "c d j = cis (2 * pi * real_of_int d * real j / real n)" for d :: int and j :: nat
  have S: "(\<Sum>j<n. c d j) = (if d = 0 then of_nat n else 0)" if "\<bar>d\<bar> < int n" for d
    unfolding c_def by (rule root_of_unity_sum [OF pos that])
  have cc: "c a j * c b j = c (a + b) j" for a b j
    unfolding c_def by (simp add: cis_mult algebra_simps add_divide_distrib)
  have c_pos: "cis (2 * pi * real k * real j / real n) = c (int k) j" for k j
    unfolding c_def by simp
  have c_neg: "cis (- (2 * pi * real k * real j / real n)) = c (- int k) j" for k j
    unfolding c_def by simp
  have summand: "complex_of_real (irfft_sample Y n j) * c (- int l) j =
        (Y ! 0 * c (- int l) j
         + (\<Sum>k \<in> {1..<M + 1}. Y ! k * c (int k - int l) j
                                + cnj (Y ! k) * c (- int k - int l) j)) / of_nat n" for j
  proof -
    let ?T = "\<lambda>k. Y ! k * c (int k) j + cnj (Y ! k) * c (- int k) j"
    let ?z = "c (- int l) j"
    have eq: "complex_of_real (irfft_sample Y n j) = (Y ! 0 + sum ?T {1..<M + 1}) / of_nat n"
      using irfft_sample_odd [OF assms(1,2), of j] by (simp only: half c_pos c_neg)
    have each: "?T k * ?z = Y ! k * c (int k - int l) j + cnj (Y ! k) * c (- int k - int l) j"
      for k
    proof -
      have "?T k * ?z = Y ! k * (c (int k) j * ?z) + cnj (Y ! k) * (c (- int k) j * ?z)"
        by (simp only: distrib_right mult.assoc)
      then show ?thesis by (simp only: cc) simp
    qed
    have "(Y ! 0 + sum ?T {1..<M + 1}) * ?z = Y ! 0 * ?z + (\<Sum>k \<in> {1..<M + 1}. ?T k * ?z)"
      by (simp only: distrib_right sum_distrib_right)
    then have "(Y ! 0 + sum ?T {1..<M + 1}) * ?z
          = Y ! 0 * ?z + (\<Sum>k \<in> {1..<M + 1}. Y ! k * c (int k - int l) j
                                              + cnj (Y ! k) * c (- int k - int l) j)"
      by (simp only: each)
    moreover have "complex_of_real (irfft_sample Y n j) * ?z
          = (Y ! 0 + sum ?T {1..<M + 1}) * ?z / of_nat n"
      by (simp only: eq times_divide_eq_left)
    ultimately show ?thesis by (simp only:)
  qed
  have "(\<Sum>j<n. complex_of_real (irfft_sample Y n j) * cis (- (2 * pi * real l * real j / real n)))
        = (\<Sum>j<n. (Y ! 0 * c (- int l) j
             + (\<Sum>k \<in> {1..<M + 1}. Y ! k * c (int k - int l) j
                                    + cnj (Y ! k) * c (- int k - int l) j)) / of_nat n)"
    by (simp only: c_neg summand)
  also have "\<dots> = (Y ! 0 * (\<Sum>j<n. c (- int l) j)
             + (\<Sum>k \<in> {1..<M + 1}. Y ! k * (\<Sum>j<n. c (int k - int l) j)
                                    + cnj (Y ! k) * (\<Sum>j<n. c (- int k - int l) j)))
            / of_nat n"
  proof -
    have swap1: "(\<Sum>j<n. \<Sum>k \<in> {1..<M + 1}. Y ! k * c (int k - int l) j)
          = (\<Sum>k \<in> {1..<M + 1}. \<Sum>j<n. Y ! k * c (int k - int l) j)"
      by (rule sum.swap)
    have swap2: "(\<Sum>j<n. \<Sum>k \<in> {1..<M + 1}. cnj (Y ! k) * c (- int k - int l) j)
          = (\<Sum>k \<in> {1..<M + 1}. \<Sum>j<n. cnj (Y ! k) * c (- int k - int l) j)"
      by (rule sum.swap)
    show ?thesis
      by (simp only: sum_divide_distrib [symmetric] sum.distrib swap1 swap2 sum_distrib_left)
  qed
  also have "\<dots> = (Y ! 0 * (if l = 0 then of_nat n else 0)
             + (\<Sum>k \<in> {1..<M + 1}. Y ! k * (if k = l then of_nat n else 0))) / of_nat n"
  proof -
    from l n have s0: "(\<Sum>j<n. c (- int l) j) = (if l = 0 then of_nat n else 0)"
      using S [of "- int l"] by simp
    have sk: "Y ! k * (\<Sum>j<n. c (int k - int l) j) + cnj (Y ! k) * (\<Sum>j<n. c (- int k - int l) j)
                = Y ! k * (if k = l then of_nat n else 0)" if "k \<in> {1..<M + 1}" for k
    proof -
      from that l n have a: "\<bar>int k - int l\<bar> < int n" and b: "\<bar>- int k - int l\<bar> < int n"
        and k1: "1 \<le> k"
        by auto
      have s1: "(\<Sum>j<n. c (int k - int l) j) = (if k = l then of_nat n else 0)"
        using S [OF a] by simp
      have s2: "(\<Sum>j<n. c (- int k - int l) j) = 0"
        using S [OF b] k1 by simp
      show ?thesis by (simp only: s1 s2) simp
    qed
    show ?thesis by (simp only: s0 sum.cong [OF refl sk])
  qed
  also have "\<dots> = Y ! l"
  proof (cases "l = 0")
    case True
    have "(\<Sum>k \<in> {1..<M + 1}. Y ! k * (if k = l then of_nat n else 0)) = 0"
      by (rule sum.neutral) (use True in auto)
    with True pos show ?thesis by simp
  next
    case False
    with l have mem: "l \<in> {1..<M + 1}" by simp
    have "(\<Sum>k \<in> {1..<M + 1}. Y ! k * (if k = l then of_nat n else 0))
            = (\<Sum>k \<in> {1..<M + 1}. if k = l then Y ! k * of_nat n else 0)"
      by (rule sum.cong) simp_all
    also have "\<dots> = Y ! l * of_nat n"
      using mem by (simp add: sum.delta)
    finally show ?thesis using False pos by simp
  qed
  finally show ?thesis .
qed

lemma dft_bin_of_map:
  "dft_bin (map f [0..<n]) l =
     (\<Sum>j<n. complex_of_real (f j) * cis (- (2 * pi * real l * real j / real n)))"
proof -
  have "dft_bin (map f [0..<n]) l =
          (\<Sum>j \<in> {0..<n}. complex_of_real (map f [0..<n] ! j)
                              * cis (- (2 * pi * real l * real j / real n)))"
    by (simp add: dft_bin_def interv_sum_list_conv_sum_set_nat)
  also have "\<dots> = (\<Sum>j \<in> {0..<n}. complex_of_real (f j)
                              * cis (- (2 * pi * real l * real j / real n)))"
    by (rule sum.cong) simp_all
  finally show ?thesis by (simp only: lessThan_atLeast0)
qed

lemma dft_bin_zero_real: "Im (dft_bin xs 0) = 0"
  by (simp add: dft_bin_def interv_sum_list_conv_sum_set_nat)

lemma those_map_Some: "those (map Some xs) = Some xs"
  by (induction xs) simp_all

lemma scale_bins_length:
  "length (scale_bins zs fs) = min (length zs) (length fs)"
  by (simp add: scale_bins_def)

lemma scale_bins_finite:
  "scale_bins zs (map Fin fs) = map Some (map2 (\<lambda>z f. z * complex_of_real f) zs fs)"
  by (induction zs fs rule: list_induct2') (simp_all add: scale_bins_def scale_bin_def)

lemma irfft_scaled_length: "irfft_scaled X n = Inr y \<Longrightarrow> int (length y) = n"
  by (auto simp: irfft_scaled_def split: if_splits option.splits sum.splits dest: irfft_length)

lemma irfft_scaled_error: "irfft_scaled X n = Inl e \<Longrightarrow> n < 1 \<and> e = InvalidInput"
  by (auto simp: irfft_scaled_def split: if_splits option.splits sum.splits dest: irfft_error)

lemma irfft_scaled_pos: "1 \<le> n \<Longrightarrow> \<exists>y. irfft_scaled X n = Inr y"
  by (cases "irfft_scaled X n") (auto dest: irfft_scaled_error)

lemma irfft_scaled_finite:
  "length Y \<le> nat n div 2 + 1 \<Longrightarrow>
   irfft_scaled (map Some Y) n = (case irfft Y n of Inl e \<Rightarrow> Inl e | Inr y \<Rightarrow> Inr (map Val y))"
  by (simp add: irfft_scaled_def those_map_Some irfft_def)

lemma np_resize_same:
  "np_resize a (length a) = a"
proof (cases "a = []")
  case True
  then show ?thesis by (simp add: np_resize_def)
next
  case False
  have "map (\<lambda>i. a ! (i mod length a)) [0..<length a] = map (\<lambda>i. a ! i) [0..<length a]"
    by (rule map_cong) simp_all
  with False show ?thesis by (simp add: np_resize_def map_nth)
qed

lemma np_shape_nums: "np_shape (PList (map PNum xs)) = Some [length xs]"
  by (cases xs) (simp_all add: comp_def list_all_iff)

lemma np_flat_nums: "np_flat (PList (map PNum xs)) = xs"
  by (induction xs) simp_all

lemma np_array_nums: "np_array (PList (map PNum xs)) = Inr (PyArray [length xs] xs)"
  by (simp only: np_array_def np_shape_nums np_flat_nums option.case)

text \<open>
  The correction of a signal of odd length \<open>n\<close> with a row of finite factors, one for
  each of the \<open>n div 2 + 1\<close> bins: every bin of the spectrum of the corrected signal is
  the bin of the signal times its factor.
\<close>

lemma irfft_scaled_spectrum:
  assumes "odd n" and "length x = n" and "length fs = n div 2 + 1"
    and "irfft (map2 (\<lambda>z f. z * complex_of_real f) (map (dft_bin x) [0..<n div 2 + 1]) fs)
           (int n) = Inr y"
    and "l \<le> n div 2"
  shows "dft_bin y l = dft_bin x l * complex_of_real (fs ! l)"
proof -
  let ?X = "map (dft_bin x) [0..<n div 2 + 1]"
  let ?Y = "map2 (\<lambda>z f. z * complex_of_real f) ?X fs"
  from assms(1) have pos: "0 < n" by (auto elim: oddE)
  have lenY: "length ?Y = n div 2 + 1" using assms(3) by simp
  have Yl: "?Y ! k = dft_bin x k * complex_of_real (fs ! k)" if "k \<le> n div 2" for k
    using that assms(3) by (simp del: upt_Suc)
  have im0: "Im (?Y ! 0) = 0"
    using Yl [of 0] by (simp add: dft_bin_zero_real)
  from assms(4) pos have y: "y = map (irfft_sample ?Y n) [0..<n]"
    using lenY by (simp add: irfft_def pad_or_trim_def del: upt_Suc)
  have "dft_bin y l = (\<Sum>j<n. complex_of_real (irfft_sample ?Y n j)
                                * cis (- (2 * pi * real l * real j / real n)))"
    unfolding y by (rule dft_bin_of_map)
  also have "\<dots> = ?Y ! l"
    by (rule dft_of_irfft_odd [OF assms(1) im0 assms(5)])
  also have "\<dots> = dft_bin x l * complex_of_real (fs ! l)"
    by (rule Yl [OF assms(5)])
  finally show ?thesis .
qed

text \<open>The row of factors that the analysis computes for one microphone.\<close>

lemma cal_factor_pos:
  "0 < n \<Longrightarrow>
   cal_factor ref_fft n mic =
     Inr (map2 fdiv ref_fft (map (\<lambda>k. cmod (dft_bin (pad_or_trim n mic) k)) [0..<n div 2 + 1]))"
  by (simp add: cal_factor_def rfft_pos comp_def)

lemma factor_loop_pos:
  "0 < n \<Longrightarrow>
   factor_loop ref_fft n mics =
     Inr (map (\<lambda>mic. map2 fdiv ref_fft
                 (map (\<lambda>k. cmod (dft_bin (pad_or_trim n mic) k)) [0..<n div 2 + 1])) mics)"
  by (induction mics) (simp_all add: cal_factor_pos)

lemma rfftfreq_rate:
  assumes "0 < n" and "sample_rate \<noteq> 0"
  shows "rfftfreq n (1 / real_of_int sample_rate) =
           Inr (map (\<lambda>k. Fin (real k * real_of_int sample_rate / real n)) [0..<n div 2 + 1])"
  using assms by (simp add: rfftfreq_def)

text \<open>
  Claim C3. Let the reference \<^verbatim>\<open>mic_recordings[self.ref_mic_index]\<close> exist and have
  \<open>N > 0\<close> samples, and let the sample rate be non-zero. Then the analysis returns and
  stores a table with one row of factors for every input signal (the reference
  included); entry \<open>k\<close> of row \<open>i\<close> is the float quotient of the magnitude of bin
  \<open>k\<close> of the reference spectrum by the magnitude of bin \<open>k\<close> of the spectrum of signal
  \<open>i\<close> at length \<open>N\<close>; the frequency bins are \<open>rfftfreq(N, 1/sample_rate)\<close>, that
  is \<open>k * sample_rate / N\<close> for the \<open>N div 2 + 1\<close> bins of the half spectrum; and every
  row has as many entries as there are frequency bins.
\<close>

theorem analyze_builds_table:
  assumes "py_index mic_recordings (ref_mic_index self) = Inr ref_response"
    and "ref_response \<noteq> []"
    and "sample_rate \<noteq> 0"
  shows "\<exists>frequency_bins factors.
           analyze_frequency_response self mic_recordings sample_rate =
             Inr (self\<lparr>calibration_data := table_dict frequency_bins factors\<rparr>)
         \<and> length factors = length mic_recordings
         \<and> (\<forall>i < length mic_recordings. \<forall>k < length ref_response div 2 + 1.
               factors ! i ! k =
                 fdiv (cmod (dft_bin ref_response k))
                      (cmod (dft_bin (pad_or_trim (length ref_response) (mic_recordings ! i)) k)))
         \<and> rfftfreq (length ref_response) (1 / real_of_int sample_rate) = Inr frequency_bins
         \<and> length frequency_bins = length ref_response div 2 + 1
         \<and> (\<forall>k < length ref_response div 2 + 1.
               frequency_bins ! k =
                 Fin (real k * real_of_int sample_rate / real (length ref_response)))
         \<and> (\<forall>i < length factors. length (factors ! i) = length frequency_bins)"
proof -
  let ?n = "length ref_response"
  let ?ks = "[0..<?n div 2 + 1]"
  let ?ref_fft = "map cmod (map (dft_bin ref_response) ?ks)"
  let ?fb = "map (\<lambda>k. Fin (real k * real_of_int sample_rate / real ?n)) ?ks"
  let ?cfs = "map (\<lambda>mic. map2 fdiv ?ref_fft
                 (map (\<lambda>k. cmod (dft_bin (pad_or_trim ?n mic) k)) ?ks)) mic_recordings"
  from assms(2) have n: "0 < ?n" by simp
  have ref: "rfft ref_response (int ?n) = Inr (map (dft_bin ref_response) ?ks)"
    using rfft_pos [OF n, of ref_response] by (simp add: pad_or_trim_self)
  have loop: "factor_loop ?ref_fft ?n mic_recordings = Inr ?cfs"
    by (rule factor_loop_pos [OF n])
  have freq: "rfftfreq ?n (1 / real_of_int sample_rate) = Inr ?fb"
    by (rule rfftfreq_rate [OF n assms(3)])
  have run: "analyze_frequency_response self mic_recordings sample_rate =
               Inr (self\<lparr>calibration_data := table_dict ?fb ?cfs\<rparr>)"
    unfolding analyze_frequency_response_def
    by (simp only: assms(1) ref loop freq assms(3) sum.case if_False)
  have entry: "?cfs ! i ! k =
                 fdiv (cmod (dft_bin ref_response k))
                      (cmod (dft_bin (pad_or_trim ?n (mic_recordings ! i)) k))"
    if "i < length mic_recordings" and "k < ?n div 2 + 1" for i k
    using that by (simp del: upt_Suc)
  have rows: "length (?cfs ! i) = length ?fb" if "i < length ?cfs" for i
    using that by (simp del: upt_Suc)
  have bins: "?fb ! k = Fin (real k * real_of_int sample_rate / real ?n)"
    if "k < ?n div 2 + 1" for k
    using that by (simp del: upt_Suc)
  have "length ?cfs = length mic_recordings" and "length ?fb = ?n div 2 + 1"
    by simp_all
  with run entry freq bins rows show ?thesis by blast
qed

theorem analyze_builds_table_witness:
  "py_index [[1, 0], [0, 1]] (ref_mic_index (init_calibrator 0)) = Inr [1, 0]
   \<and> [1, 0 :: real] \<noteq> []
   \<and> (2 :: int) \<noteq> 0
   \<and> (\<exists>frequency_bins factors.
         analyze_frequency_response (init_calibrator 0) [[1, 0], [0, 1]] 2 =
           Inr ((init_calibrator 0)\<lparr>calibration_data := table_dict frequency_bins factors\<rparr>)
         \<and> length factors = 2
         \<and> length frequency_bins = 2
         \<and> frequency_bins ! 1 = Fin 1)"
proof -
  have h1: "py_index [[1, 0], [0, 1]] (ref_mic_index (init_calibrator 0)) = Inr [1, 0]"
    by (simp add: py_index_def init_calibrator_def)
  have h2: "[1, 0 :: real] \<noteq> []" by simp
  have h3: "(2 :: int) \<noteq> 0" by simp
  from analyze_builds_table [OF h1 h2 h3]
  obtain fb cfs where
    run: "analyze_frequency_response (init_calibrator 0) [[1, 0], [0, 1]] 2 =
            Inr ((init_calibrator 0)\<lparr>calibration_data := table_dict fb cfs\<rparr>)"
    and rows: "length cfs = length [[1, 0], [0, 1 :: real]]"
    and len: "length fb = length [1, 0 :: real] div 2 + 1"
    and bins: "\<forall>k < length [1, 0 :: real] div 2 + 1.
                 fb ! k = Fin (real k * real_of_int 2 / real (length [1, 0 :: real]))"
    by blast
  from bins have b1: "fb ! 1 = Fin 1" by simp
  have "\<exists>frequency_bins factors.
          analyze_frequency_response (init_calibrator 0) [[1, 0], [0, 1]] 2 =
            Inr ((init_calibrator 0)\<lparr>calibration_data := table_dict frequency_bins factors\<rparr>)
          \<and> length factors = 2
          \<and> length frequency_bins = 2
          \<and> frequency_bins ! 1 = Fin 1"
    using run rows len b1 by (intro exI [of _ fb] exI [of _ cfs]) simp
  with h1 show ?thesis by simp
qed

section \<open>Properties of saving and loading\<close>

lemma pyfloat_eq_refl: "fin_val x \<noteq> None \<Longrightarrow> pyfloat_eq x x"
  by (cases x) simp_all

lemma pyval_eq_refl:
  "finite_val v \<Longrightarrow> pyval_eq v v"
  and pyvals_eq_refl: "finite_vals vs \<Longrightarrow> pyvals_eq vs vs"
  by (induction v and vs rule: finite_val_finite_vals.induct)
     (simp_all add: pyfloat_eq_refl)

lemma pydict_eq_refl:
  assumes "finite_dict d"
  shows "pydict_eq d d"
proof -
  have "case (map_of d k, map_of d k) of (Some v, Some w) \<Rightarrow> pyval_eq v w | _ \<Rightarrow> False"
    if "k \<in> set (map fst d)" for k
  proof -
    from that obtain v where v: "map_of d k = Some v"
      by (metis map_of_eq_None_iff not_Some_eq set_map)
    then have "(k, v) \<in> set d" by (rule map_of_SomeD)
    with assms have "finite_val v"
      by (auto simp: finite_dict_def list_all_iff)
    with v show ?thesis by (simp add: pyval_eq_refl)
  qed
  then show ?thesis by (simp add: pydict_eq_def list_all_iff)
qed

lemma finite_vals_nums:
  "list_all (\<lambda>x. fin_val x \<noteq> None) xs \<Longrightarrow> finite_vals (map PNum xs)"
  by (induction xs) simp_all

lemma finite_vals_rows:
  "list_all (list_all (\<lambda>x. fin_val x \<noteq> None)) rows
     \<Longrightarrow> finite_vals (map (\<lambda>cf. PList (map PNum cf)) rows)"
  by (induction rows) (simp_all add: finite_vals_nums)

lemma finite_table_dict:
  "list_all (\<lambda>x. fin_val x \<noteq> None) frequency_bins
     \<Longrightarrow> list_all (list_all (\<lambda>x. fin_val x \<noteq> None)) factors
     \<Longrightarrow> finite_dict (table_dict frequency_bins factors)"
  by (simp add: finite_dict_def table_dict_def finite_vals_nums finite_vals_rows)

lemma load_after_save:
  "load_calibration other (save_calibration self fs filepath) filepath =
     Inr (other\<lparr>calibration_data := calibration_data self\<rparr>)"
  by (simp add: load_calibration_def save_calibration_def)

text \<open>
  The hypothesis on NaN is needed: a table holding a NaN is not equal to a copy of it, such
  as the one read back from its file.
\<close>

lemma nan_table_differs_from_its_copy:
  "\<not> pydict_eq (table_dict [Fin 0] [[NaN]]) (table_dict [Fin 0] [[NaN]])"
  by (simp add: pydict_eq_def table_dict_def)

text \<open>
  Claim C2 (round trip). Let the calibrator hold a correction table all of whose
  frequency bins and factors are finite. Saving it writes the JSON document with the two
  keys \<^verbatim>\<open>frequency_bins\<close> and \<^verbatim>\<open>calibration_factors\<close> to the path, and loading
  that path afterwards (into any calibrator) succeeds and yields a table equal to the
  saved one, both as a value and under Python's \<^verbatim>\<open>==\<close>.
\<close>

theorem save_load_round_trip:
  assumes "calibration_data self = table_dict frequency_bins factors"
    and "list_all (\<lambda>x. fin_val x \<noteq> None) frequency_bins"
    and "list_all (list_all (\<lambda>x. fin_val x \<noteq> None)) factors"
  shows "save_calibration self fs filepath filepath =
           Some (JsonDoc (table_dict frequency_bins factors))
         \<and> (\<exists>loaded.
               load_calibration other (save_calibration self fs filepath) filepath = Inr loaded
               \<and> calibration_data loaded = table_dict frequency_bins factors
               \<and> pydict_eq (calibration_data loaded) (calibration_data self))"
proof -
  from assms have "pydict_eq (calibration_data self) (calibration_data self)"
    by (simp add: pydict_eq_refl finite_table_dict)
  with assms(1) show ?thesis
    by (simp add: load_after_save) (simp add: save_calibration_def)
qed

theorem save_load_round_trip_witness:
  "calibration_data \<lparr>ref_mic_index = 0, calibration_data = table_dict [Fin 0, Fin 1] [[Fin 1, Fin 2]]\<rparr>
     = table_dict [Fin 0, Fin 1] [[Fin 1, Fin 2]]
   \<and> list_all (\<lambda>x. fin_val x \<noteq> None) [Fin 0, Fin 1]
   \<and> list_all (list_all (\<lambda>x. fin_val x \<noteq> None)) [[Fin 1, Fin 2]]
   \<and> (\<exists>loaded.
         load_calibration (init_calibrator 1)
           (save_calibration
              \<lparr>ref_mic_index = 0, calibration_data = table_dict [Fin 0, Fin 1] [[Fin 1, Fin 2]]\<rparr>
              Map.empty ''cal.json'') ''cal.json'' = Inr loaded
         \<and> calibration_data loaded = table_dict [Fin 0, Fin 1] [[Fin 1, Fin 2]]
         \<and> pydict_eq (calibration_data loaded) (table_dict [Fin 0, Fin 1] [[Fin 1, Fin 2]]))"
proof -
  let ?self = "\<lparr>ref_mic_index = 0, calibration_data = table_dict [Fin 0, Fin 1] [[Fin 1, Fin 2]]\<rparr>"
  have h1: "calibration_data ?self = table_dict [Fin 0, Fin 1] [[Fin 1, Fin 2]]" by simp
  have h2: "list_all (\<lambda>x. fin_val x \<noteq> None) [Fin 0, Fin 1]" by simp
  have h3: "list_all (list_all (\<lambda>x. fin_val x \<noteq> None)) [[Fin 1, Fin 2]]" by simp
  from save_load_round_trip [OF h1 h2 h3, of Map.empty "''cal.json''" "init_calibrator 1"]
    h2 h3
  show ?thesis by simp
qed

section \<open>Properties of the application of a table\<close>

lemma folder_channel_length:
  "folder_channel cd fb i x = Inr y \<Longrightarrow> length y = length x"
  by (auto simp: folder_channel_def split: sum.splits dest: irfft_scaled_length)

lemma folder_channel_nonempty:
  assumes "folder_channel cd fb i x = Inr y"
  shows "x \<noteq> []"
proof
  assume "x = []"
  with assms show False
    by (auto simp: folder_channel_def irfft_scaled_def split: sum.splits)
qed

lemma folder_loop_nth:
  "folder_loop cd fb i recs = Inr ys \<Longrightarrow>
     length ys = length recs \<and>
     (\<forall>j < length recs. folder_channel cd fb (i + j) (recs ! j) = Inr (ys ! j))"
proof (induction recs arbitrary: i ys)
  case Nil
  then show ?case by simp
next
  case (Cons x recs)
  from Cons.prems obtain y ys' where y: "folder_channel cd fb i x = Inr y"
    and rest: "folder_loop cd fb (Suc i) recs = Inr ys'" and ys: "ys = y # ys'"
    by (auto split: sum.splits)
  from Cons.IH [OF rest] have len: "length ys' = length recs"
    and nth: "\<And>j. j < length recs \<Longrightarrow>
                folder_channel cd fb (Suc i + j) (recs ! j) = Inr (ys' ! j)"
    by auto
  have "folder_channel cd fb (i + j) ((x # recs) ! j) = Inr (ys ! j)"
    if "j < length (x # recs)" for j
  proof (cases j)
    case 0
    with y ys show ?thesis by simp
  next
    case (Suc j')
    with that nth [of j'] ys show ?thesis by simp
  qed
  with len ys show ?case by simp
qed

lemma file_channel_as_folder:
  "file_channel cd fb md c rows idx name =
     (case resolve_mic cd md name of
        Inl e \<Rightarrow> Inl e
      | Inr k \<Rightarrow>
          (case column c idx rows of
             Inl e \<Rightarrow> Inl e
           | Inr x \<Rightarrow> folder_channel cd fb k x))"
  by (simp add: file_channel_def folder_channel_def split: sum.splits)

lemma file_channel_Inr:
  assumes "file_channel cd fb md c rows idx name = Inr y"
  shows "idx < c \<and> length y = length rows \<and> rows \<noteq> [] \<and>
         (\<exists>k. resolve_mic cd md name = Inr k \<and>
              folder_channel cd fb k (map (\<lambda>r. r ! idx) rows) = Inr y)"
proof -
  from assms obtain k x where k: "resolve_mic cd md name = Inr k"
    and x: "column c idx rows = Inr x" and y: "folder_channel cd fb k x = Inr y"
    by (auto simp: file_channel_as_folder split: sum.splits)
  from x have "idx < c" and "x = map (\<lambda>r. r ! idx) rows"
    by (auto simp: column_def split: if_splits)
  with k y folder_channel_length [OF y] folder_channel_nonempty [OF y] show ?thesis
    by auto
qed

lemma file_loop_nth:
  "file_loop cd fb md c rows i names = Inr ys \<Longrightarrow>
     length ys = length names \<and>
     (\<forall>j < length names. file_channel cd fb md c rows (i + j) (names ! j) = Inr (ys ! j))"
proof (induction names arbitrary: i ys)
  case Nil
  then show ?case by simp
next
  case (Cons name names)
  from Cons.prems obtain y ys' where y: "file_channel cd fb md c rows i name = Inr y"
    and rest: "file_loop cd fb md c rows (Suc i) names = Inr ys'" and ys: "ys = y # ys'"
    by (auto split: sum.splits)
  from Cons.IH [OF rest] have len: "length ys' = length names"
    and nth: "\<And>j. j < length names \<Longrightarrow>
                file_channel cd fb md c rows (Suc i + j) (names ! j) = Inr (ys' ! j)"
    by auto
  have "file_channel cd fb md c rows (i + j) ((name # names) ! j) = Inr (ys ! j)"
    if "j < length (name # names)" for j
  proof (cases j)
    case 0
    with y ys show ?thesis by simp
  next
    case (Suc j')
    with that nth [of j'] ys show ?thesis by simp
  qed
  with len ys show ?case by simp
qed

lemma file_loop_first_failure:
  "j < length names \<Longrightarrow>
   (\<forall>k < j. \<exists>y. file_channel cd fb md c rows (i + k) (names ! k) = Inr y) \<Longrightarrow>
   file_channel cd fb md c rows (i + j) (names ! j) = Inl e \<Longrightarrow>
   file_loop cd fb md c rows i names = Inl e"
proof (induction names arbitrary: i j)
  case Nil
  then show ?case by simp
next
  case (Cons name names)
  show ?case
  proof (cases j)
    case 0
    with Cons.prems show ?thesis by simp
  next
    case (Suc j')
    from Cons.prems(2) Suc obtain y where y: "file_channel cd fb md c rows i name = Inr y"
      by fastforce
    have earlier: "\<forall>k < j'. \<exists>y. file_channel cd fb md c rows (Suc i + k) (names ! k) = Inr y"
    proof (intro allI impI)
      fix k assume "k < j'"
      with Suc have "Suc k < j" by simp
      with Cons.prems(2) show "\<exists>y. file_channel cd fb md c rows (Suc i + k) (names ! k) = Inr y"
        by fastforce
    qed
    from Cons.prems(1,3) Suc have "j' < length names"
      and "file_channel cd fb md c rows (Suc i + j') (names ! j') = Inl e"
      by simp_all
    from Cons.IH [OF this(1) earlier this(2)] y show ?thesis by simp
  qed
qed

lemma stack_transpose_channel:
  assumes "j < length chans" and "\<forall>ch \<in> set chans. length ch = s"
  shows "channel_of (stack_transpose chans) j = chans ! j"
proof (cases chans)
  case Nil
  with assms show ?thesis by simp
next
  case (Cons ch chs)
  with assms(2) have "length ch = s" by simp
  with Cons have "stack_transpose chans =
      Arr2 (length chans) (map (\<lambda>t. map (\<lambda>x. x ! t) chans) [0..<s])"
    by simp
  then have "channel_of (stack_transpose chans) j =
      map (\<lambda>r. r ! j) (map (\<lambda>t. map (\<lambda>x. x ! t) chans) [0..<s])"
    by simp
  also have "\<dots> = map (\<lambda>t. chans ! j ! t) [0..<s]"
    using assms(1) by simp
  also have "\<dots> = chans ! j"
    using assms by (metis map_nth nth_mem)
  finally show ?thesis .
qed

lemma stack_transpose_shape:
  assumes "chans \<noteq> []" and "\<forall>ch \<in> set chans. length ch = s"
  shows "\<exists>rows'. stack_transpose chans = Arr2 (length chans) rows' \<and> length rows' = s \<and>
           list_all (\<lambda>r. length r = length chans) rows'"
  using assms by (cases chans) (auto simp: list_all_iff)

lemma apply_file_Inr:
  assumes "apply_calibration_file self recs md = Inr out"
  shows "calibration_data self \<noteq> [] \<and>
         (\<exists>rows fb chans. recs = RecArray (Arr2 (length md) rows) \<and>
            frequency_bins_array (calibration_data self) = Inr fb \<and>
            file_loop (calibration_data self) fb md (length md) rows 0 (map fst md) = Inr chans \<and>
            out = stack_transpose chans)"
  using assms
  by (auto simp: apply_calibration_file_def Let_def
           split: if_splits recordings.splits ndarray.splits sum.splits)

lemma py_int_of_nat: "py_int (real i) = int i"
  by (simp add: py_int_def)

lemma py_int_floor: "1 \<le> py_int x \<Longrightarrow> py_int x = \<lfloor>x\<rfloor>"
  by (auto simp: py_int_def split: if_splits)

lemma resolve_mic_in_range:
  assumes "map_of md name = Some info"
    and "map_of info ''mic_number'' = Some (MNum (Fin x))"
    and "dict_get cd ''calibration_factors'' = Inr factors"
    and "py_len factors = Inr n"
    and "1 \<le> py_int x" and "py_int x \<le> int n"
  shows "resolve_mic cd md name = Inr (nat (py_int x - 1))"
  using assms by (simp add: resolve_mic_def)

lemma resolve_mic_out_of_range:
  assumes "map_of md name = Some info"
    and "map_of info ''mic_number'' = Some (MNum (Fin x))"
    and "dict_get cd ''calibration_factors'' = Inr factors"
    and "py_len factors = Inr n"
    and "py_int x < 1 \<or> int n < py_int x"
  shows "resolve_mic cd md name = Inl (OutOfRange (py_int x))"
  using assms by (auto simp: resolve_mic_def)

lemma resolve_mic_Inr:
  assumes "resolve_mic cd md name = Inr k"
    and "map_of md name = Some info"
    and "map_of info ''mic_number'' = Some (MNum (Fin x))"
  shows "int k = py_int x - 1 \<and> 1 \<le> py_int x"
  using assms by (auto simp: resolve_mic_def split: sum.splits if_splits)

lemma apply_folder_Inr:
  assumes "apply_calibration_folder self recs = Inr ys"
  shows "calibration_data self \<noteq> [] \<and>
         (\<exists>fb. frequency_bins_array (calibration_data self) = Inr fb \<and>
               folder_loop (calibration_data self) fb 0 recs = Inr ys)"
  using assms
  by (auto simp: apply_calibration_folder_def split: if_splits sum.splits)

text \<open>What a returning call of \<open>apply_calibration_file\<close> has computed for each channel.\<close>

lemma apply_file_channels:
  assumes "apply_calibration_file self recs md = Inr out"
  shows "\<exists>rows fb. recs = RecArray (Arr2 (length md) rows) \<and>
           frequency_bins_array (calibration_data self) = Inr fb \<and>
           (\<forall>idx < length md. \<exists>k.
              resolve_mic (calibration_data self) md (fst (md ! idx)) = Inr k \<and>
              folder_channel (calibration_data self) fb k
                (channel_of (Arr2 (length md) rows) idx) = Inr (channel_of out idx)) \<and>
           (if md = [] then out = Arr1 []
            else \<exists>rows'. out = Arr2 (length md) rows' \<and> length rows' = length rows \<and>
                   rows \<noteq> [] \<and> list_all (\<lambda>r. length r = length md) rows')"
proof -
  let ?cd = "calibration_data self"
  from apply_file_Inr [OF assms] obtain rows fb chans where
    recs: "recs = RecArray (Arr2 (length md) rows)"
    and fb: "frequency_bins_array ?cd = Inr fb"
    and loop: "file_loop ?cd fb md (length md) rows 0 (map fst md) = Inr chans"
    and out: "out = stack_transpose chans"
    by blast
  from file_loop_nth [OF loop] have len: "length chans = length md"
    and nth: "\<And>j. j < length md \<Longrightarrow>
       file_channel ?cd fb md (length md) rows j (fst (md ! j)) = Inr (chans ! j)"
    by auto
  have ch: "length (chans ! j) = length rows \<and> rows \<noteq> [] \<and>
            (\<exists>k. resolve_mic ?cd md (fst (md ! j)) = Inr k \<and>
                 folder_channel ?cd fb k (map (\<lambda>r. r ! j) rows) = Inr (chans ! j))"
    if "j < length md" for j
    using file_channel_Inr [OF nth [OF that]] by simp
  have all_len: "\<forall>ch \<in> set chans. length ch = length rows"
    using ch len by (auto simp: in_set_conv_nth)
  have cols: "channel_of out j = chans ! j" if "j < length md" for j
    using stack_transpose_channel [OF _ all_len, of j] that len out by simp
  have part1: "\<forall>idx < length md. \<exists>k.
              resolve_mic ?cd md (fst (md ! idx)) = Inr k \<and>
              folder_channel ?cd fb k (channel_of (Arr2 (length md) rows) idx)
                = Inr (channel_of out idx)"
    using ch cols by simp
  have part2: "if md = [] then out = Arr1 []
            else \<exists>rows'. out = Arr2 (length md) rows' \<and> length rows' = length rows \<and>
                   rows \<noteq> [] \<and> list_all (\<lambda>r. length r = length md) rows'"
  proof (cases "md = []")
    case True
    with len out show ?thesis by simp
  next
    case False
    with len have "chans \<noteq> []" by auto
    from stack_transpose_shape [OF this all_len] len out False ch [of 0]
    show ?thesis by auto
  qed
  from recs fb part1 part2 show ?thesis by blast
qed

lemma same_row_same_channel:
  assumes "apply_calibration_folder self recs = Inr ys"
    and "apply_calibration_file self (RecArray (Arr2 c rows)) md = Inr out"
    and "idx < length md"
    and "map_of md (fst (md ! idx)) = Some info"
    and "map_of info ''mic_number'' = Some (MNum (Fin (real i)))"
    and "1 \<le> i" and "i \<le> length recs"
    and "recs ! (i - 1) = channel_of (Arr2 c rows) idx"
  shows "resolve_mic (calibration_data self) md (fst (md ! idx)) = Inr (i - 1)
         \<and> channel_of out idx = ys ! (i - 1)"
proof -
  let ?cd = "calibration_data self"
  from apply_folder_Inr [OF assms(1)] obtain fb where
    fb: "frequency_bins_array ?cd = Inr fb"
    and floop: "folder_loop ?cd fb 0 recs = Inr ys"
    by blast
  from assms(6,7) have "i - 1 < length recs" by simp
  with folder_loop_nth [OF floop]
  have pos: "folder_channel ?cd fb (i - 1) (recs ! (i - 1)) = Inr (ys ! (i - 1))"
    by simp
  from apply_file_channels [OF assms(2)] fb assms(3) obtain k where
    shape: "c = length md"
    and k: "resolve_mic ?cd md (fst (md ! idx)) = Inr k"
    and chan: "folder_channel ?cd fb k (channel_of (Arr2 c rows) idx) = Inr (channel_of out idx)"
    by auto
  from resolve_mic_Inr [OF k assms(4,5)] assms(6) have "k = i - 1"
    by (simp add: py_int_of_nat)
  with k chan pos assms(8) show ?thesis by simp
qed

text \<open>
  A factor that is not finite raises nothing. When the inverse FFT crops the bin it has
  entered, the corrected samples are finite; when it reads that bin, none is.
\<close>

lemma non_finite_factor_cropped:
  "apply_calibration_folder
     \<lparr>ref_mic_index = 0, calibration_data = table_dict [Fin 0, Fin 1] [[Fin 2, PInf]]\<rparr>
     [[3]] = Inr [[Val 6]]"
  by (simp add: apply_calibration_folder_def frequency_bins_array_def dict_get_def
        table_dict_def folder_channel_def np_array_def rfft_def irfft_def irfft_sample_def
        irfft_scaled_def scale_bins_def scale_bin_def np_resize_def pad_or_trim_def
        dft_bin_def upt_rec)

lemma non_finite_factor_read:
  "apply_calibration_folder
     \<lparr>ref_mic_index = 0, calibration_data = table_dict [Fin 0] [[NaN]]\<rparr>
     [[3, 4]] = Inr [[NonFinite, NonFinite]]"
  by (simp add: apply_calibration_folder_def frequency_bins_array_def dict_get_def
        table_dict_def folder_channel_def np_array_def rfft_def irfft_scaled_def
        scale_bins_def scale_bin_def np_resize_def pad_or_trim_def dft_bin_def
        numeral_2_eq_2)

lemma non_finite_factor_accepted:
  "apply_calibration_file
     \<lparr>ref_mic_index = 0, calibration_data = table_dict [Fin 0, Fin 1] [[Fin 2, PInf]]\<rparr>
     (RecArray (Arr2 1 [[3]]))
     [(''channel_1'', [(''mic_number'', MNum (Fin 1))])] = Inr (Arr2 1 [[Val 6]])
   \<and> apply_calibration_file
     \<lparr>ref_mic_index = 0, calibration_data = table_dict [Fin 0] [[PInf]]\<rparr>
     (RecArray (Arr2 1 [[3], [4]]))
     [(''channel_1'', [(''mic_number'', MNum (Fin 1))])]
       = Inr (Arr2 1 [[NonFinite], [NonFinite]])"
  by (simp add: apply_calibration_file_def frequency_bins_array_def dict_get_def
        table_dict_def file_channel_def resolve_mic_def py_int_def column_def np_array_def
        rfft_def irfft_def irfft_sample_def irfft_scaled_def scale_bins_def scale_bin_def
        np_resize_def pad_or_trim_def dft_bin_def upt_rec numeral_2_eq_2)

text \<open>
  \<^verbatim>\<open>len(frequency_bins)\<close> is evaluated in the body of the loop only: with no recordings
  a table whose \<^verbatim>\<open>frequency_bins\<close> is a bare number is applied without an error.
\<close>

lemma bin_count_read_in_loop:
  "apply_calibration_folder
     \<lparr>ref_mic_index = 0, calibration_data = [(''frequency_bins'', PNum (Fin 5))]\<rparr> []
     = Inr []
   \<and> apply_calibration_folder
     \<lparr>ref_mic_index = 0, calibration_data = [(''frequency_bins'', PNum (Fin 5))]\<rparr> [[1]]
     = Inl TypeError"
  by (simp add: apply_calibration_folder_def frequency_bins_array_def dict_get_def
        folder_channel_def np_array_def)

text \<open>
  Claim C6 (channel-map resolution). Let the table have \<open>n\<close> rows of factors and let
  the channel map name microphone number \<open>i\<close> with \<open>1 \<le> i \<le> n\<close> for the channel
  at position \<open>idx\<close>. Then the channel-map application resolves the entry to row
  \<open>i - 1\<close>; what it does for that channel is, error or result, what the positional
  application does for the same signal at position \<open>i - 1\<close>; and whenever both calls
  return and recording \<open>i - 1\<close> of the positional call is that channel's signal, channel
  \<open>idx\<close> of the one result equals recording \<open>i - 1\<close> of the other.
\<close>

theorem channel_map_selects_positional_row:
  assumes "idx < length md"
    and "map_of md (fst (md ! idx)) = Some info"
    and "map_of info ''mic_number'' = Some (MNum (Fin (real i)))"
    and "dict_get (calibration_data self) ''calibration_factors'' = Inr factors"
    and "py_len factors = Inr n"
    and "1 \<le> i" and "i \<le> n"
  shows "resolve_mic (calibration_data self) md (fst (md ! idx)) = Inr (i - 1)
         \<and> (\<forall>fb rows.
               file_channel (calibration_data self) fb md (length md) rows idx (fst (md ! idx))
               = folder_channel (calibration_data self) fb (i - 1)
                   (channel_of (Arr2 (length md) rows) idx))
         \<and> (\<forall>recs ys rows out.
               apply_calibration_folder self recs = Inr ys
               \<and> apply_calibration_file self (RecArray (Arr2 (length md) rows)) md = Inr out
               \<and> i \<le> length recs
               \<and> recs ! (i - 1) = channel_of (Arr2 (length md) rows) idx
               \<longrightarrow> channel_of out idx = ys ! (i - 1))"
proof -
  let ?cd = "calibration_data self"
  from assms(6,7) have "1 \<le> py_int (real i)" and "py_int (real i) \<le> int n"
    by (simp_all add: py_int_of_nat)
  from resolve_mic_in_range [OF assms(2-5) this]
  have res: "resolve_mic ?cd md (fst (md ! idx)) = Inr (i - 1)"
    by (simp add: py_int_of_nat nat_diff_distrib')
  have body: "file_channel ?cd fb md (length md) rows idx (fst (md ! idx))
               = folder_channel ?cd fb (i - 1) (channel_of (Arr2 (length md) rows) idx)"
    for fb rows
    using res assms(1) by (simp add: file_channel_as_folder column_def)
  have whole: "channel_of out idx = ys ! (i - 1)"
    if "apply_calibration_folder self recs = Inr ys"
      and "apply_calibration_file self (RecArray (Arr2 (length md) rows)) md = Inr out"
      and "i \<le> length recs"
      and "recs ! (i - 1) = channel_of (Arr2 (length md) rows) idx"
    for recs ys rows out
    using same_row_same_channel [OF that(1,2) assms(1-3,6) that(3,4)] by simp
  from res body whole show ?thesis by blast
qed

theorem channel_map_selects_positional_row_witness:
  "apply_calibration_folder
     \<lparr>ref_mic_index = 0, calibration_data = table_dict [Fin 0] [[Fin 2], [Fin 3]]\<rparr>
     [[4], [5]] = Inr [[Val 8], [Val 15]]
   \<and> apply_calibration_file
     \<lparr>ref_mic_index = 0, calibration_data = table_dict [Fin 0] [[Fin 2], [Fin 3]]\<rparr>
     (RecArray (Arr2 1 [[5]])) [(''channel_1'', [(''mic_number'', MNum (Fin (real 2)))])]
       = Inr (Arr2 1 [[Val 15]])
   \<and> resolve_mic (table_dict [Fin 0] [[Fin 2], [Fin 3]])
        [(''channel_1'', [(''mic_number'', MNum (Fin (real 2)))])] ''channel_1'' = Inr 1
   \<and> channel_of (Arr2 1 [[Val 15]]) 0 = [[Val 8], [Val 15]] ! (2 - 1)"
proof -
  let ?cd = "table_dict [Fin 0] [[Fin 2], [Fin 3]]"
  let ?self = "\<lparr>ref_mic_index = 0, calibration_data = ?cd\<rparr>"
  let ?md = "[(''channel_1'', [(''mic_number'', MNum (Fin (real 2)))])]"
  let ?factors = "PList [PList [PNum (Fin 2)], PList [PNum (Fin 3)]]"
  have r1: "apply_calibration_folder ?self [[4], [5]] = Inr [[Val 8], [Val 15]]"
    by (simp add: apply_calibration_folder_def frequency_bins_array_def dict_get_def
          table_dict_def folder_channel_def np_array_def rfft_def irfft_def irfft_sample_def
          irfft_scaled_def scale_bins_def scale_bin_def np_resize_def pad_or_trim_def
          dft_bin_def)
  have r2: "apply_calibration_file ?self (RecArray (Arr2 1 [[5]])) ?md
              = Inr (Arr2 1 [[Val 15]])"
    by (simp add: apply_calibration_file_def frequency_bins_array_def dict_get_def
          table_dict_def file_channel_def resolve_mic_def py_int_def column_def np_array_def
          rfft_def irfft_def irfft_sample_def irfft_scaled_def scale_bins_def scale_bin_def
          np_resize_def pad_or_trim_def dft_bin_def)
  have h1: "(0::nat) < length ?md" by simp
  have h2: "map_of ?md (fst (?md ! 0)) = Some [(''mic_number'', MNum (Fin (real 2)))]"
    by simp
  have h3: "map_of [(''mic_number'', MNum (Fin (real 2)))] ''mic_number''
              = Some (MNum (Fin (real 2)))"
    by simp
  have h4: "dict_get (calibration_data ?self) ''calibration_factors'' = Inr ?factors"
    by (simp add: dict_get_def table_dict_def)
  have h5: "py_len ?factors = Inr 2" by simp
  have h6: "(1::nat) \<le> 2" and h7: "(2::nat) \<le> 2" by simp_all
  note inst = channel_map_selects_positional_row [OF h1 h2 h3 h4 h5 h6 h7]
  from inst have res: "resolve_mic ?cd ?md ''channel_1'' = Inr 1" by simp
  have g1: "2 \<le> length [[4], [5 :: real]]" by simp
  have g2: "[[4], [5 :: real]] ! (2 - 1) = channel_of (Arr2 (length ?md) [[5]]) 0" by simp
  have g3: "apply_calibration_file ?self (RecArray (Arr2 (length ?md) [[5]])) ?md
              = Inr (Arr2 1 [[Val 15]])"
    using r2 by simp
  from inst r1 g3 g1 g2
  have "channel_of (Arr2 1 [[Val 15]]) 0 = [[Val 8], [Val 15]] ! (2 - 1)"
    by blast
  with r1 r2 res show ?thesis by simp
qed

text \<open>
  Claim C7 (shape preservation), on the code. The docstring of
  \<^verbatim>\<open>apply_calibration_file\<close> promises an array "with dimensions (channel, sample)", and
  the claim has the recordings and the result indexed \<open>[channel][sample]\<close>. The code
  reads the number of channels from \<^verbatim>\<open>shape[1]\<close>, takes channel \<open>idx\<close> as
  \<^verbatim>\<open>mic_recordings[:, idx]\<close> and transposes the stacked corrected channels. So, for a
  loaded table, an array whose second axis is not as long as the channel map is rejected:
  recordings indexed \<open>[channel][sample]\<close> are refused unless their number of samples
  happens to be the number of channels. And whenever the call returns for a channel map
  that is not empty, the recordings have the shape \<open>(samples, channels)\<close> with at least
  one sample, the result has that shape \<open>(samples, channels)\<close> too, not
  \<open>(channels, samples)\<close>, and column \<open>idx\<close> of the result holds the corrected samples
  of column \<open>idx\<close> of the recordings, as many as there are rows.
\<close>

theorem apply_file_returns_sample_by_channel:
  "(calibration_data self \<noteq> [] \<and> c \<noteq> length md
      \<longrightarrow> apply_calibration_file self (RecArray (Arr2 c rows)) md = Inl ShapeMismatch)
   \<and> (\<forall>out. apply_calibration_file self (RecArray (Arr2 c rows)) md = Inr out \<and> md \<noteq> []
        \<longrightarrow> c = length md \<and> rows \<noteq> []
            \<and> (\<exists>rows'. out = Arr2 (length md) rows' \<and> length rows' = length rows
                   \<and> list_all (\<lambda>r. length r = length md) rows')
            \<and> (\<forall>idx < length md.
                  length (channel_of out idx) = length rows
                  \<and> (\<exists>fb k. frequency_bins_array (calibration_data self) = Inr fb
                       \<and> resolve_mic (calibration_data self) md (fst (md ! idx)) = Inr k
                       \<and> folder_channel (calibration_data self) fb k
                             (channel_of (Arr2 (length md) rows) idx)
                           = Inr (channel_of out idx))))"
proof -
  let ?cd = "calibration_data self"
  have rejected: "apply_calibration_file self (RecArray (Arr2 c rows)) md = Inl ShapeMismatch"
    if "?cd \<noteq> []" and "c \<noteq> length md"
    using that by (simp add: apply_calibration_file_def)
  have returned: "c = length md \<and> rows \<noteq> []
            \<and> (\<exists>rows'. out = Arr2 (length md) rows' \<and> length rows' = length rows
                   \<and> list_all (\<lambda>r. length r = length md) rows')
            \<and> (\<forall>idx < length md.
                  length (channel_of out idx) = length rows
                  \<and> (\<exists>fb k. frequency_bins_array ?cd = Inr fb
                       \<and> resolve_mic ?cd md (fst (md ! idx)) = Inr k
                       \<and> folder_channel ?cd fb k (channel_of (Arr2 (length md) rows) idx)
                           = Inr (channel_of out idx)))"
    if run: "apply_calibration_file self (RecArray (Arr2 c rows)) md = Inr out"
      and ne: "md \<noteq> []" for out
  proof -
    from apply_file_channels [OF run] obtain rows0 fb where
      recs: "RecArray (Arr2 c rows) = RecArray (Arr2 (length md) rows0)"
      and fb: "frequency_bins_array ?cd = Inr fb"
      and chans0: "\<forall>idx < length md. \<exists>k.
              resolve_mic ?cd md (fst (md ! idx)) = Inr k \<and>
              folder_channel ?cd fb k (channel_of (Arr2 (length md) rows0) idx)
                = Inr (channel_of out idx)"
      and shape: "if md = [] then out = Arr1 []
            else \<exists>rows'. out = Arr2 (length md) rows' \<and> length rows' = length rows0 \<and>
                   rows0 \<noteq> [] \<and> list_all (\<lambda>r. length r = length md) rows'"
      by blast
    from recs have c: "c = length md" and same: "rows0 = rows" by simp_all
    from shape ne same obtain rows' where
      out: "out = Arr2 (length md) rows'" and len: "length rows' = length rows"
      and rows: "rows \<noteq> []" and all: "list_all (\<lambda>r. length r = length md) rows'"
      by auto
    from chans0 same have chans: "\<And>idx. idx < length md \<Longrightarrow> \<exists>k.
              resolve_mic ?cd md (fst (md ! idx)) = Inr k \<and>
              folder_channel ?cd fb k (channel_of (Arr2 (length md) rows) idx)
                = Inr (channel_of out idx)"
      by simp
    have "length (channel_of out idx) = length rows
          \<and> (\<exists>fb k. frequency_bins_array ?cd = Inr fb
                \<and> resolve_mic ?cd md (fst (md ! idx)) = Inr k
                \<and> folder_channel ?cd fb k (channel_of (Arr2 (length md) rows) idx)
                    = Inr (channel_of out idx))"
      if "idx < length md" for idx
    proof -
      from chans [OF that] obtain k where
        k: "resolve_mic ?cd md (fst (md ! idx)) = Inr k"
        and ch: "folder_channel ?cd fb k (channel_of (Arr2 (length md) rows) idx)
                   = Inr (channel_of out idx)"
        by blast
      from folder_channel_length [OF ch] have "length (channel_of out idx) = length rows"
        by simp
      with fb k ch show ?thesis by blast
    qed
    with c rows out len all show ?thesis by blast
  qed
  from rejected returned show ?thesis by blast
qed

theorem apply_file_returns_sample_by_channel_witness:
  "apply_calibration_file
     \<lparr>ref_mic_index = 0, calibration_data = table_dict [Fin 0] [[Fin 2], [Fin 3]]\<rparr>
     (RecArray (Arr2 1 [[1], [2]]))
     [(''channel_1'', [(''mic_number'', MNum (Fin 1))]),
      (''channel_2'', [(''mic_number'', MNum (Fin 2))])] = Inl ShapeMismatch
   \<and> apply_calibration_file
     \<lparr>ref_mic_index = 0, calibration_data = table_dict [Fin 0] [[Fin 2], [Fin 3]]\<rparr>
     (RecArray (Arr2 2 [[1, 2]]))
     [(''channel_1'', [(''mic_number'', MNum (Fin 1))]),
      (''channel_2'', [(''mic_number'', MNum (Fin 2))])] = Inr (Arr2 2 [[Val 2, Val 6]])
   \<and> (\<exists>rows'. Arr2 2 [[Val 2, Val 6]] = Arr2 2 rows' \<and> length rows' = length [[1, 2 :: real]]
         \<and> list_all (\<lambda>r. length r = 2) rows')
   \<and> length (channel_of (Arr2 2 [[Val 2, Val 6]]) 1) = length [[1, 2 :: real]]
   \<and> Arr2 2 [[Val 2, Val 6]] \<noteq> Arr2 1 [[Val 2], [Val 6]]"
proof -
  let ?self = "\<lparr>ref_mic_index = 0, calibration_data = table_dict [Fin 0] [[Fin 2], [Fin 3]]\<rparr>"
  let ?md = "[(''channel_1'', [(''mic_number'', MNum (Fin 1))]),
              (''channel_2'', [(''mic_number'', MNum (Fin 2))])]"
  have loaded: "calibration_data ?self \<noteq> []" by (simp add: table_dict_def)
  have other: "(1::nat) \<noteq> length ?md" by simp
  from apply_file_returns_sample_by_channel [of ?self 1 ?md "[[1], [2]]"] loaded other
  have refused: "apply_calibration_file ?self (RecArray (Arr2 1 [[1], [2]])) ?md
                   = Inl ShapeMismatch"
    by blast
  have run: "apply_calibration_file ?self (RecArray (Arr2 2 [[1, 2]])) ?md
               = Inr (Arr2 2 [[Val 2, Val 6]])"
    by (simp add: apply_calibration_file_def frequency_bins_array_def dict_get_def
          table_dict_def file_channel_def resolve_mic_def py_int_def column_def np_array_def
          rfft_def irfft_def irfft_sample_def irfft_scaled_def scale_bins_def scale_bin_def
          np_resize_def pad_or_trim_def dft_bin_def)
  have ne: "?md \<noteq> []" by simp
  from apply_file_returns_sample_by_channel [of ?self 2 ?md "[[1, 2]]"] run ne
  have "(\<exists>rows'. Arr2 2 [[Val 2, Val 6]] = Arr2 (length ?md) rows'
           \<and> length rows' = length [[1, 2 :: real]]
           \<and> list_all (\<lambda>r. length r = length ?md) rows')
        \<and> (\<forall>idx < length ?md.
              length (channel_of (Arr2 2 [[Val 2, Val 6]]) idx) = length [[1, 2 :: real]])"
    by blast
  with refused run show ?thesis by simp
qed

text \<open>
  Claim C8 as stated fails on a fractional number. With four calibrated microphones the
  number 4.5 lies outside \<open>[1, 4]\<close>, yet \<^verbatim>\<open>int(4.5)\<close> is 4: the entry is accepted
  and the channel is corrected with row 3 of the table, whose factor is 2.
\<close>

theorem fractional_out_of_range_accepted:
  "apply_calibration_file
     \<lparr>ref_mic_index = 0,
      calibration_data = table_dict [Fin 0] [[Fin 1], [Fin 1], [Fin 1], [Fin 2]]\<rparr>
     (RecArray (Arr2 1 [[3]]))
     [(''channel_1'', [(''mic_number'', MNum (Fin (9 / 2)))])] = Inr (Arr2 1 [[Val 6]])"
  by (simp add: apply_calibration_file_def frequency_bins_array_def dict_get_def
        table_dict_def file_channel_def resolve_mic_def py_int_def column_def np_array_def
        rfft_def irfft_def irfft_sample_def irfft_scaled_def scale_bins_def scale_bin_def
        np_resize_def pad_or_trim_def dft_bin_def)

text \<open>
  The range check of an entry comes before everything else that is done for its channel,
  and after all that is done for the channels before it. An earlier channel whose factor
  is infinite is corrected without an error, and the number 99 is still refused; so is
  it with a table whose \<^verbatim>\<open>frequency_bins\<close> is a bare number, of which \<^verbatim>\<open>len\<close> would
  raise \<^verbatim>\<open>TypeError\<close> one line later.
\<close>

lemma out_of_range_after_non_finite_channel:
  "apply_calibration_file
     \<lparr>ref_mic_index = 0, calibration_data = table_dict [Fin 0] [[PInf]]\<rparr>
     (RecArray (Arr2 2 [[3, 4]]))
     [(''channel_1'', [(''mic_number'', MNum (Fin 1))]),
      (''channel_2'', [(''mic_number'', MNum (Fin 99))])] = Inl (OutOfRange 99)"
  by (simp add: apply_calibration_file_def frequency_bins_array_def dict_get_def
        table_dict_def file_channel_def resolve_mic_def py_int_def column_def np_array_def
        rfft_def irfft_scaled_def scale_bins_def scale_bin_def np_resize_def pad_or_trim_def
        dft_bin_def)

lemma out_of_range_before_bin_count:
  "apply_calibration_file
     \<lparr>ref_mic_index = 0,
      calibration_data = [(''frequency_bins'', PNum (Fin 5)),
                          (''calibration_factors'', PList [PList [PNum (Fin 1)]])]\<rparr>
     (RecArray (Arr2 1 [[3]]))
     [(''channel_1'', [(''mic_number'', MNum (Fin 99))])] = Inl (OutOfRange 99)"
  by (simp add: apply_calibration_file_def frequency_bins_array_def dict_get_def
        file_channel_def resolve_mic_def py_int_def np_array_def)

text \<open>
  Errors that come before the range check of an entry keep it from being reached: a
  missing number in an earlier entry, recordings with another number of columns than the
  map has entries, a table without \<^verbatim>\<open>frequency_bins\<close>.
\<close>

lemma out_of_range_preempted:
  "apply_calibration_file
     \<lparr>ref_mic_index = 0, calibration_data = table_dict [Fin 0] [[Fin 1]]\<rparr>
     (RecArray (Arr2 2 [[3, 4]]))
     [(''channel_1'', [(''location'', MDict [])]),
      (''channel_2'', [(''mic_number'', MNum (Fin 99))])] = Inl (MissingField ''channel_1'')
   \<and> apply_calibration_file
     \<lparr>ref_mic_index = 0, calibration_data = table_dict [Fin 0] [[Fin 1]]\<rparr>
     (RecArray (Arr2 2 [[3, 4]]))
     [(''channel_1'', [(''mic_number'', MNum (Fin 99))])] = Inl ShapeMismatch
   \<and> apply_calibration_file
     \<lparr>ref_mic_index = 0,
      calibration_data = [(''calibration_factors'', PList [PList [PNum (Fin 1)]])]\<rparr>
     (RecArray (Arr2 1 [[3]]))
     [(''channel_1'', [(''mic_number'', MNum (Fin 99))])] = Inl (KeyError ''frequency_bins'')"
  by (simp add: apply_calibration_file_def frequency_bins_array_def dict_get_def
        table_dict_def file_channel_def resolve_mic_def py_int_def column_def np_array_def)

text \<open>
  Claim C8, amended. Let the table have \<open>n\<close> rows of factors and let some entry of
  the channel map have a number \<open>x\<close> whose truncation \<^verbatim>\<open>int(x)\<close> is below 1 or above
  \<open>n\<close>. Then \<open>apply_calibration_file\<close> returns no recordings: it raises an error.
  The error is \<open>OutOfRange\<close> (carrying \<^verbatim>\<open>int(x)\<close>) whenever the call reaches that
  entry, that is, the recordings are a two-dimensional array with one column for each
  entry of the map, the table has an entry \<^verbatim>\<open>frequency_bins\<close> of which \<^verbatim>\<open>np.array\<close>
  makes an array before the loop, and every earlier channel is processed without an
  error.
\<close>

theorem out_of_range_mic_number_raises:
  assumes "j < length md"
    and "map_of md (fst (md ! j)) = Some info"
    and "map_of info ''mic_number'' = Some (MNum (Fin x))"
    and "dict_get (calibration_data self) ''calibration_factors'' = Inr factors"
    and "py_len factors = Inr n"
    and "py_int x < 1 \<or> int n < py_int x"
  shows "(\<exists>e. apply_calibration_file self recs md = Inl e)
         \<and> (recs = RecArray (Arr2 (length md) rows)
              \<and> frequency_bins_array (calibration_data self) = Inr fb
              \<and> (\<forall>i < j. \<exists>y. file_channel (calibration_data self) fb md (length md) rows i
                                  (fst (md ! i)) = Inr y)
              \<longrightarrow> apply_calibration_file self recs md = Inl (OutOfRange (py_int x)))"
proof -
  let ?cd = "calibration_data self"
  have rejected: "resolve_mic ?cd md (fst (md ! j)) = Inl (OutOfRange (py_int x))"
    by (rule resolve_mic_out_of_range [OF assms(2-6)])
  from assms(4) have loaded: "?cd \<noteq> []"
    by (auto simp: dict_get_def)
  have first: "\<exists>e. apply_calibration_file self recs md = Inl e"
  proof (cases "apply_calibration_file self recs md")
    case (Inl e)
    then show ?thesis by blast
  next
    case (Inr out)
    from apply_file_channels [OF Inr] assms(1) rejected show ?thesis by auto
  qed
  have second: "apply_calibration_file self recs md = Inl (OutOfRange (py_int x))"
    if recs: "recs = RecArray (Arr2 (length md) rows)"
      and fb: "frequency_bins_array ?cd = Inr fb"
      and earlier: "\<forall>i < j. \<exists>y. file_channel ?cd fb md (length md) rows i (fst (md ! i)) = Inr y"
  proof -
    have here: "file_channel ?cd fb md (length md) rows (0 + j) (map fst md ! j)
                  = Inl (OutOfRange (py_int x))"
      using rejected assms(1) by (simp add: file_channel_as_folder)
    have before: "\<forall>k < j. \<exists>y. file_channel ?cd fb md (length md) rows (0 + k) (map fst md ! k)
                    = Inr y"
      using earlier assms(1) by simp
    from assms(1) have "j < length (map fst md)" by simp
    from file_loop_first_failure [OF this before here]
    have "file_loop ?cd fb md (length md) rows 0 (map fst md) = Inl (OutOfRange (py_int x))" .
    with loaded recs fb show ?thesis
      by (simp add: apply_calibration_file_def)
  qed
  from first second show ?thesis by blast
qed

theorem out_of_range_mic_number_raises_witness:
  "(1::nat) < length [(''channel_1'', [(''mic_number'', MNum (Fin 1))]),
                      (''channel_2'', [(''mic_number'', MNum (Fin 99))])]
   \<and> dict_get (table_dict [Fin 0] [[Fin 1], [Fin 1], [Fin 1], [Fin 2]]) ''calibration_factors''
        = Inr (PList [PList [PNum (Fin 1)], PList [PNum (Fin 1)], PList [PNum (Fin 1)],
                      PList [PNum (Fin 2)]])
   \<and> py_len (PList [PList [PNum (Fin 1)], PList [PNum (Fin 1)], PList [PNum (Fin 1)],
                     PList [PNum (Fin 2)]]) = Inr 4
   \<and> (py_int 99 < 1 \<or> int 4 < py_int 99)
   \<and> frequency_bins_array (table_dict [Fin 0] [[Fin 1], [Fin 1], [Fin 1], [Fin 2]])
        = Inr (PyArray [1] [Fin 0])
   \<and> file_channel (table_dict [Fin 0] [[Fin 1], [Fin 1], [Fin 1], [Fin 2]])
        (PyArray [1] [Fin 0])
        [(''channel_1'', [(''mic_number'', MNum (Fin 1))]),
         (''channel_2'', [(''mic_number'', MNum (Fin 99))])] 2 [[3, 4]] 0 ''channel_1''
        = Inr [Val 3]
   \<and> apply_calibration_file
        \<lparr>ref_mic_index = 0,
         calibration_data = table_dict [Fin 0] [[Fin 1], [Fin 1], [Fin 1], [Fin 2]]\<rparr>
        (RecArray (Arr2 2 [[3, 4]]))
        [(''channel_1'', [(''mic_number'', MNum (Fin 1))]),
         (''channel_2'', [(''mic_number'', MNum (Fin 99))])] = Inl (OutOfRange 99)"
proof -
  let ?cd = "table_dict [Fin 0] [[Fin 1], [Fin 1], [Fin 1], [Fin 2]]"
  let ?self = "\<lparr>ref_mic_index = 0, calibration_data = ?cd\<rparr>"
  let ?md = "[(''channel_1'', [(''mic_number'', MNum (Fin 1))]),
              (''channel_2'', [(''mic_number'', MNum (Fin 99))])]"
  let ?factors = "PList [PList [PNum (Fin 1)], PList [PNum (Fin 1)], PList [PNum (Fin 1)],
                         PList [PNum (Fin 2)]]"
  let ?fb = "PyArray [1] [Fin 0]"
  have h1: "(1::nat) < length ?md" by simp
  have h2: "map_of ?md (fst (?md ! 1)) = Some [(''mic_number'', MNum (Fin 99))]" by simp
  have h3: "map_of [(''mic_number'', MNum (Fin 99))] ''mic_number'' = Some (MNum (Fin 99))"
    by simp
  have h4: "dict_get (calibration_data ?self) ''calibration_factors'' = Inr ?factors"
    by (simp add: dict_get_def table_dict_def)
  have h5: "py_len ?factors = Inr 4" by simp
  have h6: "py_int 99 < 1 \<or> int 4 < py_int 99" by (simp add: py_int_def)
  have g3: "frequency_bins_array (calibration_data ?self) = Inr ?fb"
    by (simp add: frequency_bins_array_def dict_get_def table_dict_def np_array_def)
  have c0: "file_channel ?cd ?fb ?md 2 [[3, 4]] 0 ''channel_1'' = Inr [Val 3]"
    by (simp add: dict_get_def table_dict_def file_channel_def resolve_mic_def py_int_def
          column_def np_array_def rfft_def irfft_def irfft_sample_def irfft_scaled_def
          scale_bins_def scale_bin_def np_resize_def pad_or_trim_def dft_bin_def)
  have g4: "\<forall>i < 1. \<exists>y. file_channel (calibration_data ?self) ?fb ?md (length ?md) [[3, 4]] i
                   (fst (?md ! i)) = Inr y"
    by (simp add: dict_get_def table_dict_def file_channel_def resolve_mic_def py_int_def
          column_def np_array_def rfft_def irfft_def irfft_sample_def irfft_scaled_def
          scale_bins_def scale_bin_def np_resize_def pad_or_trim_def dft_bin_def)
  have g2: "RecArray (Arr2 2 [[3, 4]]) = RecArray (Arr2 (length ?md) [[3, 4]])" by simp
  from out_of_range_mic_number_raises [OF h1 h2 h3 h4 h5 h6,
      of "RecArray (Arr2 2 [[3, 4]])" "[[3, 4]]" ?fb] g2 g3 g4
  have "apply_calibration_file ?self (RecArray (Arr2 2 [[3, 4]])) ?md
          = Inl (OutOfRange (py_int 99))"
    by blast
  then have "apply_calibration_file ?self (RecArray (Arr2 2 [[3, 4]])) ?md
          = Inl (OutOfRange 99)"
    by (simp add: py_int_def)
  with h1 h4 h5 h6 g3 c0 show ?thesis by simp
qed

text \<open>
  Claim C10 (fractional microphone numbers). Let a channel-map entry have the number
  \<open>x\<close> with \<open>1 \<le> int(x) \<le> n\<close>, \<open>n\<close> being the number of rows of the table.
  Then \<^verbatim>\<open>int(x)\<close> is \<open>x\<close> rounded down, the entry is not rejected but resolved to
  row \<open>int(x) - 1\<close>, the work done for its channel is exactly the correction of that
  channel's signal with row \<open>int(x) - 1\<close>, and in every returning call the channel of
  the result is that correction. No hypothesis asks \<open>x\<close> to be integral.
\<close>

theorem fractional_mic_number_truncated:
  assumes "idx < length md"
    and "map_of md (fst (md ! idx)) = Some info"
    and "map_of info ''mic_number'' = Some (MNum (Fin x))"
    and "dict_get (calibration_data self) ''calibration_factors'' = Inr factors"
    and "py_len factors = Inr n"
    and "1 \<le> py_int x" and "py_int x \<le> int n"
  shows "py_int x = \<lfloor>x\<rfloor>
         \<and> resolve_mic (calibration_data self) md (fst (md ! idx)) = Inr (nat (py_int x) - 1)
         \<and> (\<forall>fb rows. file_channel (calibration_data self) fb md (length md) rows idx (fst (md ! idx))
               = folder_channel (calibration_data self) fb (nat (py_int x) - 1)
                   (channel_of (Arr2 (length md) rows) idx))
         \<and> (\<forall>rows out fb.
               apply_calibration_file self (RecArray (Arr2 (length md) rows)) md = Inr out
               \<and> frequency_bins_array (calibration_data self) = Inr fb
               \<longrightarrow> folder_channel (calibration_data self) fb (nat (py_int x) - 1)
                     (channel_of (Arr2 (length md) rows) idx) = Inr (channel_of out idx))"
proof -
  let ?cd = "calibration_data self"
  let ?k = "nat (py_int x) - 1"
  have k: "nat (py_int x - 1) = ?k" by simp
  have res: "resolve_mic ?cd md (fst (md ! idx)) = Inr ?k"
    using resolve_mic_in_range [OF assms(2-7)] k by simp
  have body: "file_channel ?cd fb md (length md) rows idx (fst (md ! idx))
               = folder_channel ?cd fb ?k (channel_of (Arr2 (length md) rows) idx)" for fb rows
    using res assms(1) by (simp add: file_channel_as_folder column_def)
  have whole: "folder_channel ?cd fb ?k (channel_of (Arr2 (length md) rows) idx)
                 = Inr (channel_of out idx)"
    if run: "apply_calibration_file self (RecArray (Arr2 (length md) rows)) md = Inr out"
      and fb: "frequency_bins_array ?cd = Inr fb" for rows out fb
  proof -
    from apply_file_channels [OF run] fb assms(1) obtain k' where
      "resolve_mic ?cd md (fst (md ! idx)) = Inr k'"
      "folder_channel ?cd fb k' (channel_of (Arr2 (length md) rows) idx)
         = Inr (channel_of out idx)"
      by auto
    with res show ?thesis by simp
  qed
  from py_int_floor [OF assms(6)] res body whole show ?thesis by blast
qed

theorem fractional_mic_number_truncated_witness:
  "py_int (29 / 10) = 2
   \<and> resolve_mic (table_dict [Fin 0] [[Fin 1], [Fin 5], [Fin 1], [Fin 1]])
        [(''channel_1'', [(''mic_number'', MNum (Fin (29 / 10)))])] ''channel_1'' = Inr 1
   \<and> apply_calibration_file
        \<lparr>ref_mic_index = 0,
         calibration_data = table_dict [Fin 0] [[Fin 1], [Fin 5], [Fin 1], [Fin 1]]\<rparr>
        (RecArray (Arr2 1 [[3]]))
        [(''channel_1'', [(''mic_number'', MNum (Fin (29 / 10)))])] = Inr (Arr2 1 [[Val 15]])
   \<and> folder_channel (table_dict [Fin 0] [[Fin 1], [Fin 5], [Fin 1], [Fin 1]])
        (PyArray [1] [Fin 0]) 1 [3] = Inr [Val 15]"
proof -
  let ?cd = "table_dict [Fin 0] [[Fin 1], [Fin 5], [Fin 1], [Fin 1]]"
  let ?self = "\<lparr>ref_mic_index = 0, calibration_data = ?cd\<rparr>"
  let ?md = "[(''channel_1'', [(''mic_number'', MNum (Fin (29 / 10)))])]"
  let ?factors = "PList [PList [PNum (Fin 1)], PList [PNum (Fin 5)], PList [PNum (Fin 1)],
                         PList [PNum (Fin 1)]]"
  let ?fb = "PyArray [1] [Fin 0]"
  have p: "py_int (29 / 10) = 2" by (simp add: py_int_def)
  have h1: "(0::nat) < length ?md" by simp
  have h2: "map_of ?md (fst (?md ! 0)) = Some [(''mic_number'', MNum (Fin (29 / 10)))]"
    by simp
  have h3: "map_of [(''mic_number'', MNum (Fin (29 / 10)))] ''mic_number''
              = Some (MNum (Fin (29 / 10)))"
    by simp
  have h4: "dict_get (calibration_data ?self) ''calibration_factors'' = Inr ?factors"
    by (simp add: dict_get_def table_dict_def)
  have h5: "py_len ?factors = Inr 4" by simp
  have h6: "1 \<le> py_int (29 / 10)" and h7: "py_int (29 / 10) \<le> int 4"
    by (simp_all add: p)
  have run: "apply_calibration_file ?self (RecArray (Arr2 1 [[3]])) ?md
               = Inr (Arr2 1 [[Val 15]])"
    by (simp add: apply_calibration_file_def frequency_bins_array_def dict_get_def
          table_dict_def file_channel_def resolve_mic_def p column_def np_array_def
          rfft_def irfft_def irfft_sample_def irfft_scaled_def scale_bins_def scale_bin_def
          np_resize_def pad_or_trim_def dft_bin_def)
  have fb: "frequency_bins_array (calibration_data ?self) = Inr ?fb"
    by (simp add: frequency_bins_array_def dict_get_def table_dict_def np_array_def)
  note inst = fractional_mic_number_truncated [OF h1 h2 h3 h4 h5 h6 h7]
  from inst have r: "resolve_mic ?cd ?md ''channel_1'' = Inr 1"
    by (simp add: p)
  from inst run fb have "folder_channel (calibration_data ?self) ?fb (nat (py_int (29 / 10)) - 1)
                     (channel_of (Arr2 (length ?md) [[3]]) 0)
                   = Inr (channel_of (Arr2 1 [[Val 15]]) 0)"
    by (metis One_nat_def length_Cons list.size(3))
  then have f: "folder_channel ?cd ?fb 1 [3] = Inr [Val 15]"
    by (simp add: p)
  from p r run f show ?thesis by simp
qed

lemma folder_channel_odd:
  assumes "odd n" and "length x = n" and "length fs = n div 2 + 1"
    and "np_len fb = Inr (n div 2 + 1)"
    and "dict_get cd ''calibration_factors'' = Inr factors"
    and "list_get factors i = Inr (PList (map PNum (map Fin fs)))"
  shows "\<exists>y. folder_channel cd fb i x = Inr (map Val y) \<and> length y = n
             \<and> (\<forall>l \<le> n div 2. dft_bin y l = dft_bin x l * complex_of_real (fs ! l))"
proof -
  let ?X = "map (dft_bin x) [0..<n div 2 + 1]"
  let ?Y = "map2 (\<lambda>z f. z * complex_of_real f) ?X fs"
  from assms(1) have pos: "0 < n" by (auto elim: oddE)
  from assms(1) have len: "int (n div 2 + 1) * 2 - 1 = int n"
    by (auto elim!: oddE)
  have spectrum: "rfft x (int n) = Inr ?X"
    using rfft_pos [OF pos, of x] assms(2) pad_or_trim_self [of x] by simp
  have row: "np_array (PList (map PNum (map Fin fs)))
               = Inr (PyArray [length (map Fin fs)] (map Fin fs))"
    by (rule np_array_nums)
  have lens: "length ?X = length (map Fin fs)" using assms(3) by simp
  have resize: "np_resize (map Fin fs) (length ?X) = map Fin fs"
    unfolding lens by (rule np_resize_same)
  have scaled: "scale_bins ?X (map Fin fs) = map Some ?Y"
    by (rule scale_bins_finite)
  from pos obtain y where y: "irfft ?Y (int n) = Inr y"
    by (simp add: irfft_def)
  have "length ?Y \<le> nat (int n) div 2 + 1" using assms(3) by simp
  from irfft_scaled_finite [OF this] y
  have inverse: "irfft_scaled (map Some ?Y) (int n) = Inr (map Val y)"
    by simp
  have run: "folder_channel cd fb i x = Inr (map Val y)"
    unfolding folder_channel_def
    by (simp only: assms(4) len spectrum assms(5,6) row pyarray.sel resize scaled
          sum.case assms(2) inverse)
  have "dft_bin y l = dft_bin x l * complex_of_real (fs ! l)" if "l \<le> n div 2" for l
    by (rule irfft_scaled_spectrum [OF assms(1-3) y that])
  with run irfft_length [OF y] show ?thesis by auto
qed

lemma folder_loop_all:
  "(\<forall>j < length recs. \<exists>y. folder_channel cd fb (i + j) (recs ! j) = Inr y)
     \<Longrightarrow> \<exists>ys. folder_loop cd fb i recs = Inr ys"
proof (induction recs arbitrary: i)
  case Nil
  then show ?case by simp
next
  case (Cons x recs)
  from Cons.prems have "\<exists>y. folder_channel cd fb (i + 0) ((x # recs) ! 0) = Inr y"
    by blast
  then obtain y where y: "folder_channel cd fb i x = Inr y" by auto
  have "\<forall>j < length recs. \<exists>y. folder_channel cd fb (Suc i + j) (recs ! j) = Inr y"
  proof (intro allI impI)
    fix j assume "j < length recs"
    then have "Suc j < length (x # recs)" by simp
    with Cons.prems have "\<exists>y. folder_channel cd fb (i + Suc j) ((x # recs) ! Suc j) = Inr y"
      by blast
    then show "\<exists>y. folder_channel cd fb (Suc i + j) (recs ! j) = Inr y" by simp
  qed
  from Cons.IH [OF this] y show ?case by auto
qed

lemma magnitude_spectrum_bins:
  "x \<noteq> [] \<Longrightarrow>
   magnitude_spectrum x = Inr (map (\<lambda>k. cmod (dft_bin x k)) [0..<length x div 2 + 1])"
  using rfft_pos [of "length x" x]
  by (simp add: magnitude_spectrum_def pad_or_trim_self comp_def del: upt_Suc)

lemma analyze_run:
  assumes "py_index mic_recordings (ref_mic_index self) = Inr ref_response"
    and "ref_response \<noteq> []"
    and "sample_rate \<noteq> 0"
  shows "analyze_frequency_response self mic_recordings sample_rate =
           Inr (self\<lparr>calibration_data :=
             table_dict
               (map (\<lambda>k. Fin (real k * real_of_int sample_rate / real (length ref_response)))
                    [0..<length ref_response div 2 + 1])
               (map (\<lambda>mic. map2 fdiv
                       (map cmod (map (dft_bin ref_response)
                          [0..<length ref_response div 2 + 1]))
                       (map (\<lambda>k. cmod (dft_bin (pad_or_trim (length ref_response) mic) k))
                          [0..<length ref_response div 2 + 1]))
                    mic_recordings)\<rparr>)"
proof -
  let ?n = "length ref_response"
  let ?ks = "[0..<?n div 2 + 1]"
  from assms(2) have n: "0 < ?n" by simp
  have ref: "rfft ref_response (int ?n) = Inr (map (dft_bin ref_response) ?ks)"
    using rfft_pos [OF n, of ref_response] by (simp add: pad_or_trim_self)
  show ?thesis
    unfolding analyze_frequency_response_def
    by (simp only: assms(1) ref factor_loop_pos [OF n] rfftfreq_rate [OF n assms(3)]
          assms(3) sum.case if_False)
qed

lemma frequency_bins_array_table:
  "frequency_bins_array (table_dict fb cfs) = Inr (PyArray [length fb] fb)"
  by (simp add: frequency_bins_array_def dict_get_def table_dict_def np_array_nums)

lemma frequency_bin_count_table:
  "frequency_bin_count (table_dict fb cfs) = Inr (length fb)"
  by (simp add: frequency_bin_count_def frequency_bins_array_table)

lemma factors_of_table:
  "dict_get (table_dict fb cfs) ''calibration_factors''
     = Inr (PList (map (\<lambda>cf. PList (map PNum cf)) cfs))"
  by (simp add: dict_get_def table_dict_def)

lemma row_of_table:
  "i < length cfs \<Longrightarrow>
   list_get (PList (map (\<lambda>cf. PList (map PNum cf)) cfs)) i = Inr (PList (map PNum (cfs ! i)))"
  by simp

text \<open>
  The self-correction identity at odd lengths. Let all sweep signals have the odd length
  of the reference and no zero bin in their half spectrum (so that every factor is
  finite). Then the table that the analysis builds, applied to the same signals, gives
  corrected signals, all of finite samples, whose magnitude spectra all equal the
  reference's.
\<close>

lemma self_correction_odd_length:
  assumes "odd (length ref)"
    and "py_index recs (ref_mic_index self) = Inr ref"
    and "\<forall>x \<in> set recs. length x = length ref"
    and "\<forall>x \<in> set recs. \<forall>k \<le> length ref div 2. dft_bin x k \<noteq> 0"
    and "sample_rate \<noteq> 0"
  shows "\<exists>self' ys.
           analyze_frequency_response self recs sample_rate = Inr self'
         \<and> apply_calibration_folder self' recs = Inr (map (map Val) ys)
         \<and> length ys = length recs
         \<and> (\<forall>i < length recs. magnitude_spectrum (ys ! i) = magnitude_spectrum ref)"
proof -
  let ?n = "length ref"
  let ?ks = "[0..<?n div 2 + 1]"
  let ?fb = "map (\<lambda>k. Fin (real k * real_of_int sample_rate / real ?n)) ?ks"
  let ?fs = "\<lambda>mic. map (\<lambda>k. cmod (dft_bin ref k) / cmod (dft_bin mic k)) ?ks"
  let ?cfs = "map (\<lambda>mic. map Fin (?fs mic)) recs"
  let ?cd = "table_dict ?fb ?cfs"
  let ?arr = "PyArray [length ?fb] ?fb"
  let ?self = "self\<lparr>calibration_data := ?cd\<rparr>"
  from assms(1) have ne: "ref \<noteq> []" by auto
  have row: "map2 fdiv (map cmod (map (dft_bin ref) ?ks))
               (map (\<lambda>k. cmod (dft_bin (pad_or_trim ?n mic) k)) ?ks) = map Fin (?fs mic)"
    if "mic \<in> set recs" for mic
  proof -
    from that assms(3) have "pad_or_trim ?n mic = mic"
      using pad_or_trim_self [of mic] by simp
    moreover have "fdiv (cmod (dft_bin ref k)) (cmod (dft_bin mic k))
                     = Fin (cmod (dft_bin ref k) / cmod (dft_bin mic k))" if "k \<in> set ?ks" for k
    proof -
      from that have "k \<le> ?n div 2" by auto
      with \<open>mic \<in> set recs\<close> assms(4) have "dft_bin mic k \<noteq> 0" by blast
      then show ?thesis by (simp add: fdiv_def)
    qed
    ultimately show ?thesis
      by (simp add: map2_map_map comp_def del: upt_Suc cong: map_cong)
  qed
  have analysis: "analyze_frequency_response self recs sample_rate = Inr ?self"
    using analyze_run [OF assms(2) ne assms(5)] row by (simp cong: map_cong del: upt_Suc)
  have loaded: "calibration_data ?self \<noteq> []" by (simp add: table_dict_def)
  have bins: "frequency_bins_array ?cd = Inr ?arr"
    by (rule frequency_bins_array_table)
  have count: "np_len ?arr = Inr (?n div 2 + 1)"
    by (simp del: upt_Suc)
  have factors: "dict_get ?cd ''calibration_factors'' =
                   Inr (PList (map (\<lambda>cf. PList (map PNum cf)) ?cfs))"
    by (rule factors_of_table)
  have chan: "\<exists>y. folder_channel ?cd ?arr i (recs ! i) = Inr (map Val y) \<and> length y = ?n
                \<and> (\<forall>l \<le> ?n div 2. dft_bin y l
                       = dft_bin (recs ! i) l * complex_of_real (?fs (recs ! i) ! l))"
    if "i < length recs" for i
  proof -
    from that assms(3) have len: "length (recs ! i) = ?n" by simp
    have lfs: "length (?fs (recs ! i)) = ?n div 2 + 1" by simp
    from that have "i < length ?cfs" and "?cfs ! i = map Fin (?fs (recs ! i))"
      by simp_all
    with row_of_table [of i ?cfs]
    have get: "list_get (PList (map (\<lambda>cf. PList (map PNum cf)) ?cfs)) i
                  = Inr (PList (map PNum (map Fin (?fs (recs ! i)))))"
      by (simp only:)
    show ?thesis
      by (rule folder_channel_odd [OF assms(1) len lfs count factors get])
  qed
  then have "\<forall>j < length recs. \<exists>y. folder_channel ?cd ?arr (0 + j) (recs ! j) = Inr y"
    by fastforce
  from folder_loop_all [OF this] obtain zs where
    loop: "folder_loop ?cd ?arr 0 recs = Inr zs"
    by blast
  from folder_loop_nth [OF loop] have lzs: "length zs = length recs"
    and nth: "\<And>j. j < length recs \<Longrightarrow>
                folder_channel ?cd ?arr j (recs ! j) = Inr (zs ! j)"
    by auto
  have "\<forall>z \<in> set zs. \<exists>y. z = map Val y"
  proof
    fix z assume "z \<in> set zs"
    then obtain j where j: "j < length zs" and z: "z = zs ! j"
      by (auto simp: in_set_conv_nth)
    from j lzs have "j < length recs" by simp
    from chan [OF this] nth [OF this] z show "\<exists>y. z = map Val y" by auto
  qed
  then obtain ys where ys: "zs = map (map Val) ys"
    by (auto simp: ex_map_conv [symmetric])
  with lzs have lys: "length ys = length recs" by simp
  from loop loaded bins ys
  have application: "apply_calibration_folder ?self recs = Inr (map (map Val) ys)"
    by (simp add: apply_calibration_folder_def)
  have "magnitude_spectrum (ys ! i) = magnitude_spectrum ref" if "i < length recs" for i
  proof -
    from that lys ys have zi: "zs ! i = map Val (ys ! i)" by simp
    from chan [OF that] obtain y where
      y: "folder_channel ?cd ?arr i (recs ! i) = Inr (map Val y)" and ly: "length y = ?n"
      and ybin: "\<And>l. l \<le> ?n div 2 \<Longrightarrow> dft_bin y l
                 = dft_bin (recs ! i) l * complex_of_real (?fs (recs ! i) ! l)"
      by blast
    from y nth [OF that] zi have "map Val (ys ! i) = map Val y" by simp
    then have "ys ! i = y"
      by (rule map_injective) (simp add: inj_on_def)
    with ly ybin have len: "length (ys ! i) = ?n"
      and bin: "\<And>l. l \<le> ?n div 2 \<Longrightarrow> dft_bin (ys ! i) l
                 = dft_bin (recs ! i) l * complex_of_real (?fs (recs ! i) ! l)"
      by simp_all
    from len ne have ney: "ys ! i \<noteq> []" by auto
    have "cmod (dft_bin (ys ! i) k) = cmod (dft_bin ref k)" if "k \<in> set ?ks" for k
    proof -
      from that have k: "k \<le> ?n div 2" by auto
      from \<open>i < length recs\<close> have "recs ! i \<in> set recs" by simp
      with k assms(4) have nz: "dft_bin (recs ! i) k \<noteq> 0" by blast
      let ?a = "cmod (dft_bin ref k)"
      let ?b = "cmod (dft_bin (recs ! i) k)"
      from nz have b: "?b \<noteq> 0" by simp
      from k have "?fs (recs ! i) ! k = ?a / ?b"
        by (simp del: upt_Suc)
      with bin [OF k]
      have "dft_bin (ys ! i) k = dft_bin (recs ! i) k * complex_of_real (?a / ?b)"
        by (simp only:)
      then have "cmod (dft_bin (ys ! i) k) = ?b * \<bar>?a / ?b\<bar>"
        by (simp only: norm_mult norm_of_real)
      also have "\<bar>?a / ?b\<bar> = ?a / ?b" by simp
      also from b have "?b * (?a / ?b) = ?a" by simp
      finally show ?thesis .
    qed
    then have "map (\<lambda>k. cmod (dft_bin (ys ! i) k)) ?ks = map (\<lambda>k. cmod (dft_bin ref k)) ?ks"
      by (rule map_cong [OF refl])
    then show ?thesis
      by (simp only: magnitude_spectrum_bins [OF ney] magnitude_spectrum_bins [OF ne] len)
  qed
  with analysis application lys show ?thesis by blast
qed

text \<open>
  Claim C1 (self-correction identity), evaluated on the code for two sweep signals of the
  even length \<open>N = 2\<close>: the reference \<open>[1, 0]\<close> and the microphone \<open>[0, 1]\<close>,
  whose magnitude spectra are both \<open>[1, 1]\<close>; all factors of the table are 1. The table
  has \<open>N div 2 + 1 = 2\<close> frequency bins, from which the application takes the FFT length
  \<open>2 * 2 - 1 = 3\<close> instead of 2: the microphone's spectrum becomes
  \<open>[1, cis (- 2 pi / 3)]\<close> instead of \<open>[1, - 1]\<close>, the corrected signal is
  \<open>[1/4, 3/4]\<close>, and its magnitude spectrum is \<open>[1, 1/2]\<close>, not the reference's
  \<open>[1, 1]\<close>, at bin 1, where the microphone's magnitude is 1. At odd lengths
  \<open>2 * (N div 2 + 1) - 1\<close> is \<open>N\<close> and the identity holds, as
  \<open>self_correction_odd_length\<close> shows.
\<close>

theorem self_correction_even_length:
  "analyze_frequency_response (init_calibrator 0) [[1, 0], [0, 1]] 2 =
     Inr \<lparr>ref_mic_index = 0,
          calibration_data = table_dict [Fin 0, Fin 1] [[Fin 1, Fin 1], [Fin 1, Fin 1]]\<rparr>
   \<and> frequency_bin_count (table_dict [Fin 0, Fin 1] [[Fin 1, Fin 1], [Fin 1, Fin 1]]) = Inr 2
   \<and> rfft [0, 1] 2 = Inr [1, - 1]
   \<and> rfft [0, 1] (int 2 * 2 - 1) = Inr [1, cis (- (2 * pi / 3))]
   \<and> apply_calibration_folder
        \<lparr>ref_mic_index = 0,
         calibration_data = table_dict [Fin 0, Fin 1] [[Fin 1, Fin 1], [Fin 1, Fin 1]]\<rparr>
        [[1, 0], [0, 1]] = Inr [[Val 1, Val 0], [Val (1 / 4), Val (3 / 4)]]
   \<and> magnitude_spectrum [1, 0] = Inr [1, 1]
   \<and> magnitude_spectrum [0, 1] = Inr [1, 1]
   \<and> magnitude_spectrum [1 / 4, 3 / 4] = Inr [1, 1 / 2]"
proof -
  have analysis: "analyze_frequency_response (init_calibrator 0) [[1, 0], [0, 1]] 2 =
     Inr \<lparr>ref_mic_index = 0,
          calibration_data = table_dict [Fin 0, Fin 1] [[Fin 1, Fin 1], [Fin 1, Fin 1]]\<rparr>"
    by (simp add: analyze_frequency_response_def py_index_def init_calibrator_def rfft_def
          pad_or_trim_def dft_bin_def cal_factor_def fdiv_def rfftfreq_def upt_rec
          cis_cnj [symmetric])
  have bins: "frequency_bin_count (table_dict [Fin 0, Fin 1] [[Fin 1, Fin 1], [Fin 1, Fin 1]])
                = Inr 2"
    by (simp add: frequency_bin_count_table)
  have two: "rfft [0, 1] 2 = Inr [1, - 1]"
    by (simp add: rfft_def pad_or_trim_def dft_bin_def upt_rec cis_cnj [symmetric])
  have three: "rfft [0, 1] (int 2 * 2 - 1) = Inr [1, cis (- (2 * pi / 3))]"
    by (simp add: rfft_def pad_or_trim_def dft_bin_def upt_rec)
  have application: "apply_calibration_folder
        \<lparr>ref_mic_index = 0,
         calibration_data = table_dict [Fin 0, Fin 1] [[Fin 1, Fin 1], [Fin 1, Fin 1]]\<rparr>
        [[1, 0], [0, 1]] = Inr [[Val 1, Val 0], [Val (1 / 4), Val (3 / 4)]]"
    by (simp add: apply_calibration_folder_def frequency_bins_array_def dict_get_def
          table_dict_def folder_channel_def np_array_def rfft_def irfft_def irfft_sample_def
          irfft_scaled_def scale_bins_def scale_bin_def np_resize_def pad_or_trim_def
          dft_bin_def upt_rec cos_120)
  have spectra: "magnitude_spectrum [1, 0] = Inr [1, 1]"
    "magnitude_spectrum [0, 1] = Inr [1, 1]"
    "magnitude_spectrum [1 / 4, 3 / 4] = Inr [1, 1 / 2]"
    by (simp_all add: magnitude_spectrum_def rfft_def pad_or_trim_def dft_bin_def upt_rec
          cis_cnj [symmetric])
  from analysis bins two three application spectra show ?thesis by (simp only: simp_thms)
qed

end
